theory Spec2Isabelle
  imports Main "HOL-Library.Word"
begin

unbundle bit_operations_syntax

section \<open>Transposition table: data model\<close>

text \<open>
  The translation unit under verification defines \<open>TranspositionTable::resize\<close>,
  \<open>clear\<close>, \<open>probe\<close>, \<open>save\<close> and \<open>hashfull\<close>. The header that declares the entry
  layout, the cluster, the accessors, \<open>first_entry\<close> and \<open>new_search\<close> is not part of the
  sources at hand; what is needed of it is taken from the specification and marked as such.
\<close>

type_synonym Key = "64 word"

text \<open>
  Modelled from the spec: the declarations of \<open>Value\<close> and \<open>Move\<close> are missing. The
  interface section gives \<open>value\<close> and \<open>eval\<close> as signed 16-bit quantities and \<open>move\<close> as an
  opaque 16-bit packed move, so the conversions \<open>int16_t(v)\<close>, \<open>int16_t(ev)\<close> and
  \<open>uint16_t(m)\<close> of \<open>save\<close> keep every bit. A \<open>Value\<close> is read as a signed number with
  \<open>sint\<close>.
\<close>

type_synonym Value = "16 word"
type_synonym Move = "16 word"

text \<open>\<open>Depth\<close> is a signed integer; \<open>save\<close> narrows \<open>d - DEPTH_OFFSET\<close> to eight bits.\<close>

type_synonym Depth = int

text \<open>
  Modelled from the spec: the bound kinds \<open>NONE\<close>, \<open>UPPER\<close>, \<open>LOWER\<close>, \<open>EXACT\<close> occupy
  bits 1..0 of \<open>genBound8\<close>; an all-zero entry carries no bound, so \<open>NONE\<close> is 0, and
  \<open>EXACT\<close> is both bounds at once.
\<close>

datatype Bound = BOUND_NONE | BOUND_UPPER | BOUND_LOWER | BOUND_EXACT

fun bound_bits :: "Bound \<Rightarrow> 8 word" where
  "bound_bits BOUND_NONE = 0"
| "bound_bits BOUND_UPPER = 1"
| "bound_bits BOUND_LOWER = 2"
| "bound_bits BOUND_EXACT = 3"

text \<open>Modelled from the spec: the entry, ten bytes in six fields.\<close>

record TTEntry =
  key16 :: "16 word"
  move16 :: "16 word"
  value16 :: "16 word"
  eval16 :: "16 word"
  genBound8 :: "8 word"
  depth8 :: "8 word"

text \<open>
  Modelled from the spec: a cluster is \<open>ClusterSize\<close> entries (3) followed by padding
  bytes, 32 bytes in all.
\<close>

definition ClusterSize :: nat where
  "ClusterSize = 3"

definition sizeof_Cluster :: nat where
  "sizeof_Cluster = 32"

record Cluster =
  entry :: "TTEntry list"
  padding :: "8 word list"

text \<open>
  The table object: the cluster array, its length as the code records it, and the
  generation counter. \<open>table\<close> holds exactly the allocated clusters, so an index at or
  beyond \<open>length (table tt)\<close> is an access outside the allocation.
\<close>

record TranspositionTable =
  clusterCount :: nat
  table :: "Cluster list"
  generation8 :: "8 word"

text \<open>
  A \<open>TTEntry*\<close>: null, or the address of entry \<open>j\<close> of cluster \<open>i\<close>.
\<close>

datatype TTEntry_ptr = nullptr | EntryRef nat nat

text \<open>
  What an operation can end in other than its result: the process exits (status and the
  text written to the standard error stream), memory outside the table is accessed, or a
  pointer is read before any assignment.
\<close>

datatype failure = Exit int string | OutOfBounds | Uninitialized

subsection \<open>Entry codec (modelled from the spec)\<close>

text \<open>
  Modelled from the spec: the accessors of an entry. \<open>entry_generation\<close> keeps bits 7..3,
  \<open>entry_is_pv\<close> is bit 2, \<open>entry_bound\<close> decodes bits 1..0, and \<open>stored_to_depth\<close> is the
  inverse of subtracting \<open>DEPTH_OFFSET\<close>, which is a parameter here because the
  specification does not give its value.
\<close>

definition entry_generation :: "8 word \<Rightarrow> 8 word" where
  "entry_generation g = g AND 0xF8"

definition entry_is_pv :: "8 word \<Rightarrow> bool" where
  "entry_is_pv g = (g AND 0x4 \<noteq> 0)"

definition entry_bound :: "8 word \<Rightarrow> Bound" where
  "entry_bound g =
     (if g AND 0x3 = 0 then BOUND_NONE
      else if g AND 0x3 = 1 then BOUND_UPPER
      else if g AND 0x3 = 2 then BOUND_LOWER
      else BOUND_EXACT)"

definition stored_to_depth :: "int \<Rightarrow> 8 word \<Rightarrow> Depth" where
  "stored_to_depth DEPTH_OFFSET x = uint x + DEPTH_OFFSET"

definition zero_entry :: TTEntry where
  "zero_entry = \<lparr>key16 = 0, move16 = 0, value16 = 0, eval16 = 0, genBound8 = 0, depth8 = 0\<rparr>"

definition zero_cluster :: Cluster where
  "zero_cluster = \<lparr>entry = replicate ClusterSize zero_entry, padding = replicate 2 0\<rparr>"

text \<open>Modelled from the spec: an entry is empty when \<open>key16\<close> and \<open>genBound8\<close> are 0.\<close>

definition is_empty :: "TTEntry \<Rightarrow> bool" where
  "is_empty e = (key16 e = 0 \<and> genBound8 e = 0)"

text \<open>The bytes of an entry and of a cluster, least significant byte first.\<close>

definition bytes16 :: "16 word \<Rightarrow> 8 word list" where
  "bytes16 x = [ucast x, ucast (drop_bit 8 x)]"

definition entry_bytes :: "TTEntry \<Rightarrow> 8 word list" where
  "entry_bytes e =
     bytes16 (key16 e) @ bytes16 (move16 e) @ bytes16 (value16 e) @ bytes16 (eval16 e)
       @ [genBound8 e, depth8 e]"

definition cluster_bytes :: "Cluster \<Rightarrow> 8 word list" where
  "cluster_bytes c = concat (map entry_bytes (entry c)) @ padding c"

subsection \<open>Index function (modelled from the spec)\<close>

text \<open>
  Modelled from the spec: \<open>first_entry\<close> is declared in the missing header. The cluster
  of a key is the high 64 bits of the 128-bit product of the key and \<open>clusterCount\<close>; the
  function returns that cluster's index, the pointer being to its entry 0.
\<close>

definition first_entry :: "TranspositionTable \<Rightarrow> Key \<Rightarrow> nat" where
  "first_entry tt key = (unat key * clusterCount tt) div 2 ^ 64"

text \<open>\<open>key >> 48\<close> narrowed to 16 bits.\<close>

definition key_signature :: "Key \<Rightarrow> 16 word" where
  "key_signature key = ucast (drop_bit 48 key)"

text \<open>Modelled from the spec: \<open>new_search\<close> advances the generation by 8, modulo 256.\<close>

definition new_search :: "TranspositionTable \<Rightarrow> TranspositionTable" where
  "new_search tt = tt\<lparr>generation8 := generation8 tt + 8\<rparr>"

section \<open>Operations\<close>

subsection \<open>probe\<close>

text \<open>
  The scan \<open>for (i = 0; i < ClusterSize; ++i) if (tte[i].key16 == key16) ...\<close>, which
  both \<open>probe\<close> and the first phase of \<open>save\<close> run: the first index whose signature
  matches, if any.
\<close>

function scan_key :: "TTEntry list \<Rightarrow> 16 word \<Rightarrow> nat \<Rightarrow> nat option" where
  "scan_key tte k16 i =
     (if i < ClusterSize
      then (if key16 (tte ! i) = k16 then Some i else scan_key tte k16 (Suc i))
      else None)"
  by pat_completeness auto
termination
  by (relation "measure (\<lambda>(tte, k16, i). ClusterSize - i)") auto

declare scan_key.simps [simp del]

text \<open>Writing entry \<open>j\<close> of cluster \<open>i\<close>.\<close>

definition set_entry :: "Cluster list \<Rightarrow> nat \<Rightarrow> nat \<Rightarrow> TTEntry \<Rightarrow> Cluster list" where
  "set_entry tbl i j e = tbl[i := (tbl ! i)\<lparr>entry := (entry (tbl ! i))[j := e]\<rparr>]"

definition get_entry :: "Cluster list \<Rightarrow> nat \<Rightarrow> nat \<Rightarrow> TTEntry" where
  "get_entry tbl i j = entry (tbl ! i) ! j"

text \<open>
  \<open>probe\<close> returns the table (a hit refreshes the generation of the entry), the flag
  \<open>found\<close> and the pointer.
\<close>

definition probe ::
  "TranspositionTable \<Rightarrow> Key \<Rightarrow> failure + (TranspositionTable \<times> bool \<times> TTEntry_ptr)" where
  "probe tt key =
     (let c = first_entry tt key;
          k16 = key_signature key
      in if length (table tt) \<le> c then Inl OutOfBounds
         else
           (case scan_key (entry (table tt ! c)) k16 0 of
              Some i \<Rightarrow>
                let e = get_entry (table tt) c i;
                    e' = e\<lparr>genBound8 := generation8 tt OR (genBound8 e AND 0x7)\<rparr>
                in Inr (tt\<lparr>table := set_entry (table tt) c i e'\<rparr>, True, EntryRef c i)
            | None \<Rightarrow> Inr (tt, False, nullptr)))"

subsection \<open>save\<close>

text \<open>The second scan: \<open>if (!tte[i].key16)\<close>, the first index with signature 0.\<close>

definition scan_empty :: "TTEntry list \<Rightarrow> nat option" where
  "scan_empty tte = scan_key tte 0 0"

text \<open>
  The replace value of an entry, computed in \<open>int\<close> as the operands are promoted:
  \<open>depth8 - ((263 + generation8 - genBound8) & 0xF8)\<close>.
\<close>

definition rscore :: "8 word \<Rightarrow> TTEntry \<Rightarrow> int" where
  "rscore g e = uint (depth8 e) - ((263 + uint g - uint (genBound8 e)) AND 0xF8)"

text \<open>
  The third loop, from index \<open>i\<close> with the current candidate \<open>r\<close>: the candidate changes
  only when its replace value is strictly greater than that of entry \<open>i\<close>.
\<close>

function scan_least :: "8 word \<Rightarrow> TTEntry list \<Rightarrow> nat \<Rightarrow> nat \<Rightarrow> nat" where
  "scan_least g tte r i =
     (if i < ClusterSize
      then scan_least g tte (if rscore g (tte ! r) > rscore g (tte ! i) then i else r) (Suc i)
      else r)"
  by pat_completeness auto
termination
  by (relation "measure (\<lambda>(g, tte, r, i). ClusterSize - i)") auto

declare scan_least.simps [simp del]

text \<open>
  The three phases of the victim selection. \<open>replace\<close> is declared without a value: it is
  \<open>None\<close> until a phase assigns it, and \<open>success\<close> gates the later phases as in the code.
\<close>

definition phase_match :: "TTEntry list \<Rightarrow> 16 word \<Rightarrow> nat option \<times> bool" where
  "phase_match tte k16 =
     (case scan_key tte k16 0 of Some i \<Rightarrow> (Some i, True) | None \<Rightarrow> (None, False))"

definition phase_empty :: "TTEntry list \<Rightarrow> nat option \<times> bool \<Rightarrow> nat option \<times> bool" where
  "phase_empty tte rs =
     (if \<not> snd rs
      then (case scan_empty tte of Some i \<Rightarrow> (Some i, True) | None \<Rightarrow> rs)
      else rs)"

definition phase_least ::
  "8 word \<Rightarrow> TTEntry list \<Rightarrow> nat option \<times> bool \<Rightarrow> nat option \<times> bool" where
  "phase_least g tte rs =
     (if \<not> snd rs then (Some (scan_least g tte 0 1), snd rs) else rs)"

definition select_victim :: "8 word \<Rightarrow> TTEntry list \<Rightarrow> 16 word \<Rightarrow> nat option" where
  "select_victim g tte k16 = fst (phase_least g tte (phase_empty tte (phase_match tte k16)))"

text \<open>
  The byte \<open>uint8_t(generation8 | uint8_t(pv) << 2 | b)\<close>, then the write phase on the
  victim. \<open>DEPTH_OFFSET\<close> is a constant of the missing headers and a parameter here.
\<close>

definition gen_bound_byte :: "8 word \<Rightarrow> bool \<Rightarrow> Bound \<Rightarrow> 8 word" where
  "gen_bound_byte g pv b = g OR push_bit 2 (of_bool pv) OR bound_bits b"

definition write_entry ::
  "int \<Rightarrow> 8 word \<Rightarrow> TTEntry \<Rightarrow> 16 word \<Rightarrow> Value \<Rightarrow> bool \<Rightarrow> Bound \<Rightarrow> Depth \<Rightarrow> Move \<Rightarrow> Value
     \<Rightarrow> TTEntry" where
  "write_entry DEPTH_OFFSET g e k16 v pv b d m ev =
     (let e1 = (if m \<noteq> 0 \<or> key16 e \<noteq> k16 then e\<lparr>move16 := m\<rparr> else e)
      in e1\<lparr>key16 := k16,
            value16 := v,
            eval16 := ev,
            genBound8 := gen_bound_byte g pv b,
            depth8 := word_of_int (d - DEPTH_OFFSET)\<rparr>)"

definition save ::
  "int \<Rightarrow> TranspositionTable \<Rightarrow> Key \<Rightarrow> Value \<Rightarrow> bool \<Rightarrow> Bound \<Rightarrow> Depth \<Rightarrow> Move \<Rightarrow> Value
     \<Rightarrow> failure + TranspositionTable" where
  "save DEPTH_OFFSET tt k v pv b d m ev =
     (let c = first_entry tt k;
          k16 = key_signature k
      in if length (table tt) \<le> c then Inl OutOfBounds
         else
           (case select_victim (generation8 tt) (entry (table tt ! c)) k16 of
              None \<Rightarrow> Inl Uninitialized
            | Some r \<Rightarrow>
                Inr (tt\<lparr>table := set_entry (table tt) c r
                       (write_entry DEPTH_OFFSET (generation8 tt) (get_entry (table tt) c r)
                          k16 v pv b d m ev)\<rparr>)))"

subsection \<open>hashfull\<close>

text \<open>The summand of the inner loop, a \<open>bool\<close> added to an \<open>int\<close>.\<close>

definition occupied :: "8 word \<Rightarrow> TTEntry \<Rightarrow> bool" where
  "occupied g e = (genBound8 e AND 0xF8 = g \<and> genBound8 e AND 0x3 \<noteq> bound_bits BOUND_NONE)"

definition hashfull_cluster :: "8 word \<Rightarrow> Cluster \<Rightarrow> int" where
  "hashfull_cluster g c = (\<Sum>j \<leftarrow> [0..<ClusterSize]. of_bool (occupied g (entry c ! j)))"

definition hashfull :: "TranspositionTable \<Rightarrow> failure + int" where
  "hashfull tt =
     (if length (table tt) < 1000 then Inl OutOfBounds
      else Inr ((\<Sum>i \<leftarrow> [0..<1000]. hashfull_cluster (generation8 tt) (table tt ! i))
                  div int ClusterSize))"

subsection \<open>clear\<close>

text \<open>
  \<open>std::memset(&table[start], 0, len * sizeof(Cluster))\<close>: every byte of clusters
  \<open>start\<close> to \<open>start + len - 1\<close> becomes 0, which makes each of them \<open>zero_cluster\<close>.
\<close>

definition memset_zero :: "Cluster list \<Rightarrow> nat \<Rightarrow> nat \<Rightarrow> failure + Cluster list" where
  "memset_zero tbl start len =
     (if length tbl < start + len then Inl OutOfBounds
      else Inr (take start tbl @ replicate len zero_cluster @ drop (start + len) tbl))"

text \<open>
  The body of the thread with index \<open>idx\<close>, where \<open>T\<close> is the value of the \<open>Threads\<close>
  option: the range it computes, as first cluster and number of clusters, and the
  \<open>memset\<close> over it.
\<close>

definition thread_range :: "nat \<Rightarrow> nat \<Rightarrow> nat \<Rightarrow> nat \<times> nat" where
  "thread_range T cc idx =
     (let stride = cc div T;
          start = stride * idx;
          len = (if idx \<noteq> T - 1 then stride else cc - start)
      in (start, len))"

definition clear_thread :: "nat \<Rightarrow> nat \<Rightarrow> nat \<Rightarrow> Cluster list \<Rightarrow> failure + Cluster list" where
  "clear_thread T cc idx tbl =
     (case thread_range T cc idx of (start, len) \<Rightarrow> memset_zero tbl start len)"

text \<open>
  The threads write disjoint ranges and are joined before \<open>clear\<close> returns, so their
  effect is that of running them one after the other in index order.
\<close>

fun run_threads ::
  "(nat \<Rightarrow> Cluster list \<Rightarrow> failure + Cluster list) \<Rightarrow> nat list \<Rightarrow> Cluster list
     \<Rightarrow> failure + Cluster list" where
  "run_threads f [] tbl = Inr tbl"
| "run_threads f (idx # rest) tbl =
     (case f idx tbl of Inl err \<Rightarrow> Inl err | Inr tbl' \<Rightarrow> run_threads f rest tbl')"

definition clear :: "nat \<Rightarrow> TranspositionTable \<Rightarrow> failure + TranspositionTable" where
  "clear T tt =
     (case run_threads (clear_thread T (clusterCount tt)) [0..<T] (table tt) of
        Inl err \<Rightarrow> Inl err
      | Inr tbl \<Rightarrow> Inr (tt\<lparr>table := tbl\<rparr>))"

subsection \<open>resize\<close>

text \<open>Decimal output of an unsigned number, as \<open>operator<<\<close> prints a \<open>size_t\<close>.\<close>

definition digit_char :: "nat \<Rightarrow> char" where
  "digit_char d = ''0123456789'' ! d"

function decimal :: "nat \<Rightarrow> string" where
  "decimal n =
     (if n < 10 then [digit_char n] else decimal (n div 10) @ [digit_char (n mod 10)])"
  by pat_completeness auto
termination
  by (relation "measure id") auto

declare decimal.simps [simp del]

text \<open>The status \<open>EXIT_FAILURE\<close> of the C library.\<close>

definition EXIT_FAILURE :: int where
  "EXIT_FAILURE = 1"

definition alloc_failure_message :: "64 word \<Rightarrow> string" where
  "alloc_failure_message mbSize =
     ''Failed to allocate '' @ decimal (unat mbSize) @ ''MB for transposition table.''
       @ [CHR 0x0A]"

text \<open>
  \<open>clusterCount = mbSize * 1024 * 1024 / sizeof(Cluster)\<close> in 64-bit unsigned arithmetic.
\<close>

definition cluster_count_of :: "64 word \<Rightarrow> nat" where
  "cluster_count_of mbSize = unat (mbSize * 1024 * 1024) div sizeof_Cluster"

text \<open>
  \<open>resize\<close>. The allocator is outside this unit: \<open>mem\<close> is what it answers to the request
  for \<open>clusterCount * sizeof(Cluster)\<close> bytes, \<open>None\<close> for a null pointer and otherwise the
  fresh region, whose contents are arbitrary.
\<close>

definition resize ::
  "64 word \<Rightarrow> nat \<Rightarrow> Cluster list option \<Rightarrow> TranspositionTable
     \<Rightarrow> failure + TranspositionTable" where
  "resize mbSize T mem tt =
     (let cc = cluster_count_of mbSize
      in case mem of
           None \<Rightarrow> Inl (Exit EXIT_FAILURE (alloc_failure_message mbSize))
         | Some region \<Rightarrow> clear T (tt\<lparr>clusterCount := cc, table := region\<rparr>))"

subsection \<open>Well-formed tables\<close>

text \<open>
  The list holds \<open>clusterCount\<close> clusters, each an array of \<open>ClusterSize\<close> entries with two
  bytes of padding.
\<close>

definition cluster_ok :: "Cluster \<Rightarrow> bool" where
  "cluster_ok c = (length (entry c) = ClusterSize \<and> length (padding c) = 2)"

definition tt_shape :: "TranspositionTable \<Rightarrow> bool" where
  "tt_shape tt = (length (table tt) = clusterCount tt \<and> list_all cluster_ok (table tt))"

text \<open>
  A usable table: it has at least one cluster, and the generation counter, which starts
  at 0 and moves in steps of 8, has its low three bits clear.
\<close>

definition tt_wf :: "TranspositionTable \<Rightarrow> bool" where
  "tt_wf tt = (tt_shape tt \<and> 0 < clusterCount tt \<and> generation8 tt AND 0x7 = 0)"

subsection \<open>Occupancy as the specification words it\<close>

text \<open>
  The specification's reading of \<open>hashfull\<close>, to be compared with the loop of the code: an
  entry counts when \<open>entry_generation\<close> of its \<open>genBound8\<close> is the current generation and
  its \<open>entry_bound\<close> is not \<open>NONE\<close>; the result is the number of such entries among the
  entries of the first 1000 clusters, divided by \<open>ClusterSize\<close>.
\<close>

definition spec_occupied :: "8 word \<Rightarrow> TTEntry \<Rightarrow> bool" where
  "spec_occupied g e =
     (entry_generation (genBound8 e) = g \<and> entry_bound (genBound8 e) \<noteq> BOUND_NONE)"

definition spec_hashfull :: "TranspositionTable \<Rightarrow> int" where
  "spec_hashfull tt =
     int (length (filter (spec_occupied (generation8 tt))
                    (concat (map entry (take 1000 (table tt))))))
       div int ClusterSize"

section \<open>Example tables\<close>

text \<open>
  A one-cluster table whose three entries are all in use, at generation 8, with depths 8,
  2 and 5, and a key whose signature is \<open>0xDEAD\<close>.
\<close>

definition demo_entry :: "16 word \<Rightarrow> 8 word \<Rightarrow> TTEntry" where
  "demo_entry k dp =
     \<lparr>key16 = k, move16 = 0x1234, value16 = 42, eval16 = - 5,
      genBound8 = gen_bound_byte 8 True BOUND_EXACT, depth8 = dp\<rparr>"

definition demo_full :: TranspositionTable where
  "demo_full =
     \<lparr>clusterCount = 1,
      table = [\<lparr>entry = [demo_entry 1 8, demo_entry 2 2, demo_entry 3 5], padding = [0, 0]\<rparr>],
      generation8 = 8\<rparr>"

definition demo_key :: Key where
  "demo_key = 0xDEADBEEFCAFEBABE"

text \<open>
  Further tables: a cluster with two entries of equal replace value, the full cluster one
  search later, a cleared one-cluster table, that table after one \<open>save\<close> of \<open>demo_key\<close>
  and after one \<open>save\<close> of a key whose high 16 bits are 0, and the table that
  \<open>resize(1)\<close> builds.
\<close>

definition demo_tie :: TranspositionTable where
  "demo_tie =
     \<lparr>clusterCount = 1,
      table = [\<lparr>entry = [demo_entry 1 5, demo_entry 2 5, demo_entry 3 8], padding = [0, 0]\<rparr>],
      generation8 = 8\<rparr>"

text \<open>
  Clusters whose entries differ in age. In \<open>demo_old\<close> the current generation is 32 and
  entry 0, of depth 10, was written at generation 8, three searches ago; entries 1 and 2,
  of depths 2 and 5, are current. In \<open>demo_wrap\<close> the generation counter has wrapped to 0
  and entry 0, of depth 9, was written at generation 248, one search ago.
\<close>

definition demo_entry_at :: "16 word \<Rightarrow> 8 word \<Rightarrow> 8 word \<Rightarrow> TTEntry" where
  "demo_entry_at k gb dp =
     \<lparr>key16 = k, move16 = 0x1234, value16 = 42, eval16 = - 5, genBound8 = gb, depth8 = dp\<rparr>"

definition demo_old :: TranspositionTable where
  "demo_old =
     \<lparr>clusterCount = 1,
      table = [\<lparr>entry = [demo_entry_at 1 15 10, demo_entry_at 2 39 2, demo_entry_at 3 39 5],
                padding = [0, 0]\<rparr>],
      generation8 = 32\<rparr>"

definition demo_wrap :: TranspositionTable where
  "demo_wrap =
     \<lparr>clusterCount = 1,
      table = [\<lparr>entry = [demo_entry_at 1 251 9, demo_entry_at 2 3 3, demo_entry_at 3 3 4],
                padding = [0, 0]\<rparr>],
      generation8 = 0\<rparr>"

definition demo_aged :: TranspositionTable where
  "demo_aged = demo_full\<lparr>generation8 := 16\<rparr>"

definition demo_cleared :: TranspositionTable where
  "demo_cleared = \<lparr>clusterCount = 1, table = [zero_cluster], generation8 = 8\<rparr>"

definition demo_saved :: TranspositionTable where
  "demo_saved =
     \<lparr>clusterCount = 1,
      table = [\<lparr>entry = [\<lparr>key16 = 0xDEAD, move16 = 0x1234, value16 = 42, eval16 = - 5,
                           genBound8 = 15, depth8 = 16\<rparr>, zero_entry, zero_entry],
                padding = [0, 0]\<rparr>],
      generation8 = 8\<rparr>"

definition demo_key0 :: Key where
  "demo_key0 = 0xBEEFCAFEBABE"

definition demo_zsig :: TranspositionTable where
  "demo_zsig =
     \<lparr>clusterCount = 1,
      table = [\<lparr>entry = [\<lparr>key16 = 0, move16 = 0x1234, value16 = 42, eval16 = - 5,
                           genBound8 = 15, depth8 = 16\<rparr>, zero_entry, zero_entry],
                padding = [0, 0]\<rparr>],
      generation8 = 8\<rparr>"

definition fresh_1mb :: TranspositionTable where
  "fresh_1mb = \<lparr>clusterCount = 32768, table = replicate 32768 zero_cluster, generation8 = 0\<rparr>"

text \<open>
  A table of 1000 clusters with one current entry each, and a freshly allocated region of
  32768 clusters that still holds old data.
\<close>

definition demo_third :: Cluster where
  "demo_third = \<lparr>entry = [demo_entry 1 8, zero_entry, zero_entry], padding = [0, 0]\<rparr>"

definition demo_sample :: TranspositionTable where
  "demo_sample = \<lparr>clusterCount = 1000, table = replicate 1000 demo_third, generation8 = 8\<rparr>"

definition demo_region :: "Cluster list" where
  "demo_region = replicate 32768 demo_third"

text \<open>
  The global object \<open>TT\<close> as static initialisation leaves it, before the first \<open>resize\<close>:
  no clusters, generation 0. And the table object with \<open>clusterCount = 0\<close> at generation 8.
\<close>

definition TT_initial :: TranspositionTable where
  "TT_initial = \<lparr>clusterCount = 0, table = [], generation8 = 0\<rparr>"

definition demo_empty :: TranspositionTable where
  "demo_empty = \<lparr>clusterCount = 0, table = [], generation8 = 8\<rparr>"

section \<open>The cluster scans\<close>

lemma ClusterSize_pos: "0 < ClusterSize"
  by (simp add: ClusterSize_def)

lemma scan_key_Some:
  "scan_key tte k i = Some r \<Longrightarrow>
     i \<le> r \<and> r < ClusterSize \<and> key16 (tte ! r) = k \<and> (\<forall>j. i \<le> j \<and> j < r \<longrightarrow> key16 (tte ! j) \<noteq> k)"
proof (induction tte k i rule: scan_key.induct)
  case (1 tte k16 i)
  show ?case
  proof (cases "i < ClusterSize")
    case False
    with "1.prems" show ?thesis by (simp add: scan_key.simps)
  next
    case lt: True
    show ?thesis
    proof (cases "key16 (tte ! i) = k16")
      case True
      with lt "1.prems" show ?thesis by (auto simp add: scan_key.simps[of tte k16 i])
    next
      case False
      with lt "1.prems" have "scan_key tte k16 (Suc i) = Some r"
        by (simp add: scan_key.simps[of tte k16 i])
      from "1.IH"[OF lt False this] False show ?thesis
        by (metis Suc_leD le_antisym not_less_eq_eq)
    qed
  qed
qed

lemma scan_key_None:
  "scan_key tte k i = None \<longleftrightarrow> (\<forall>j. i \<le> j \<and> j < ClusterSize \<longrightarrow> key16 (tte ! j) \<noteq> k)"
proof (induction tte k i rule: scan_key.induct)
  case (1 tte k16 i)
  show ?case
  proof (cases "i < ClusterSize")
    case False
    then show ?thesis by (auto simp add: scan_key.simps[of tte k16 i])
  next
    case lt: True
    show ?thesis
    proof (cases "key16 (tte ! i) = k16")
      case True
      with lt show ?thesis by (auto simp add: scan_key.simps[of tte k16 i])
    next
      case False
      have "scan_key tte k16 i = scan_key tte k16 (Suc i)"
        using lt False by (simp add: scan_key.simps[of tte k16 i])
      with "1.IH"[OF lt False] False show ?thesis
        by (metis Suc_leD le_antisym not_less_eq_eq)
    qed
  qed
qed

lemma scan_least_props:
  "r < i \<Longrightarrow>
     (scan_least g tte r i = r \<or> (i \<le> scan_least g tte r i \<and> scan_least g tte r i < ClusterSize)) \<and>
     rscore g (tte ! scan_least g tte r i) \<le> rscore g (tte ! r) \<and>
     (scan_least g tte r i \<noteq> r \<longrightarrow> rscore g (tte ! scan_least g tte r i) < rscore g (tte ! r)) \<and>
     (\<forall>j. i \<le> j \<and> j < ClusterSize \<longrightarrow> rscore g (tte ! scan_least g tte r i) \<le> rscore g (tte ! j)) \<and>
     (\<forall>j. i \<le> j \<and> j < scan_least g tte r i \<longrightarrow> rscore g (tte ! scan_least g tte r i) < rscore g (tte ! j))"
proof (induction g tte r i rule: scan_least.induct)
  case (1 g tte r i)
  show ?case
  proof (cases "i < ClusterSize")
    case False
    then have "scan_least g tte r i = r" by (simp add: scan_least.simps[of g tte r i])
    with False "1.prems" show ?thesis by auto
  next
    case lt: True
    let ?r' = "if rscore g (tte ! r) > rscore g (tte ! i) then i else r"
    have eq: "scan_least g tte r i = scan_least g tte ?r' (Suc i)"
      using lt by (simp add: scan_least.simps[of g tte r i])
    have "?r' < Suc i" using "1.prems" by simp
    from "1.IH"[OF lt this] have IH:
      "(scan_least g tte ?r' (Suc i) = ?r' \<or> (Suc i \<le> scan_least g tte ?r' (Suc i) \<and> scan_least g tte ?r' (Suc i) < ClusterSize))"
      "rscore g (tte ! scan_least g tte ?r' (Suc i)) \<le> rscore g (tte ! ?r')"
      "(scan_least g tte ?r' (Suc i) \<noteq> ?r' \<longrightarrow> rscore g (tte ! scan_least g tte ?r' (Suc i)) < rscore g (tte ! ?r'))"
      "(\<forall>j. Suc i \<le> j \<and> j < ClusterSize \<longrightarrow> rscore g (tte ! scan_least g tte ?r' (Suc i)) \<le> rscore g (tte ! j))"
      "(\<forall>j. Suc i \<le> j \<and> j < scan_least g tte ?r' (Suc i) \<longrightarrow> rscore g (tte ! scan_least g tte ?r' (Suc i)) < rscore g (tte ! j))"
      by blast+
    define s where "s = scan_least g tte ?r' (Suc i)"
    note IH' = IH[folded s_def]
    have c1: "s = r \<or> (i \<le> s \<and> s < ClusterSize)"
      using IH'(1) lt by (auto split: if_splits)
    have c2: "rscore g (tte ! s) \<le> rscore g (tte ! r)"
      using IH'(2) by (auto split: if_splits)
    have c3: "s \<noteq> r \<longrightarrow> rscore g (tte ! s) < rscore g (tte ! r)"
      using IH'(2,3) by (auto split: if_splits)
    have c4: "\<forall>j. i \<le> j \<and> j < ClusterSize \<longrightarrow> rscore g (tte ! s) \<le> rscore g (tte ! j)"
    proof (intro allI impI)
      fix j assume j: "i \<le> j \<and> j < ClusterSize"
      show "rscore g (tte ! s) \<le> rscore g (tte ! j)"
      proof (cases "j = i")
        case True
        with IH'(2) show ?thesis by (auto split: if_splits)
      next
        case False
        with j have "Suc i \<le> j \<and> j < ClusterSize" by simp
        with IH'(4) show ?thesis by blast
      qed
    qed
    have c5: "\<forall>j. i \<le> j \<and> j < s \<longrightarrow> rscore g (tte ! s) < rscore g (tte ! j)"
    proof (intro allI impI)
      fix j assume j: "i \<le> j \<and> j < s"
      show "rscore g (tte ! s) < rscore g (tte ! j)"
      proof (cases "j = i")
        case True
        with j have "s \<noteq> i" by simp
        moreover from j "1.prems" have "s \<noteq> r" by simp
        ultimately show ?thesis using IH'(2,3) True by (auto split: if_splits)
      next
        case False
        with j have "Suc i \<le> j \<and> j < s" by simp
        with IH'(5) show ?thesis by blast
      qed
    qed
    from c1 c2 c3 c4 c5 show ?thesis unfolding eq s_def[symmetric] by blast
  qed
qed

lemma first_entry_less: "0 < clusterCount tt \<Longrightarrow> first_entry tt key < clusterCount tt"
proof -
  assume pos: "0 < clusterCount tt"
  have "unat key < 2 ^ 64" using unsigned_less[of key] by simp
  then have "unat key * clusterCount tt < 2 ^ 64 * clusterCount tt"
    using pos by simp
  then have "unat key * clusterCount tt < clusterCount tt * 2 ^ 64"
    by (simp add: mult.commute)
  then show ?thesis
    unfolding first_entry_def by (rule less_mult_imp_div_less)
qed

lemma select_victim_match:
  "scan_key tte k 0 = Some i \<Longrightarrow> select_victim g tte k = Some i"
  by (simp add: select_victim_def phase_least_def phase_empty_def phase_match_def)

lemma select_victim_empty:
  "scan_key tte k 0 = None \<Longrightarrow> scan_key tte 0 0 = Some i \<Longrightarrow> select_victim g tte k = Some i"
  by (simp add: select_victim_def phase_least_def phase_empty_def phase_match_def scan_empty_def)

lemma select_victim_least:
  "scan_key tte k 0 = None \<Longrightarrow> scan_key tte 0 0 = None \<Longrightarrow>
     select_victim g tte k = Some (scan_least g tte 0 1)"
  by (simp add: select_victim_def phase_least_def phase_empty_def phase_match_def scan_empty_def)

lemma scan_least_less: "scan_least g tte 0 1 < ClusterSize"
  using scan_least_props[of 0 1 g tte] ClusterSize_pos by auto

lemma select_victim_Some:
  "\<exists>r. select_victim g tte k = Some r \<and> r < ClusterSize \<and> (\<forall>j<r. key16 (tte ! j) \<noteq> k)"
proof (cases "scan_key tte k 0")
  case (Some i)
  with scan_key_Some[OF Some] select_victim_match[OF Some] show ?thesis by auto
next
  case n1: None
  show ?thesis
  proof (cases "scan_key tte 0 0")
    case (Some i)
    from scan_key_Some[OF Some] select_victim_empty[OF n1 Some] n1[unfolded scan_key_None]
    show ?thesis by auto
  next
    case None
    have lt: "scan_least g tte 0 1 < ClusterSize" by (rule scan_least_less)
    have "\<forall>j. j < scan_least g tte 0 1 \<longrightarrow> key16 (tte ! j) \<noteq> k"
      using n1[unfolded scan_key_None] lt by auto
    with select_victim_least[OF n1 None] lt show ?thesis by blast
  qed
qed

lemma scan_key_first:
  assumes "r < ClusterSize" "key16 (tte ! r) = k" "\<forall>j<r. key16 (tte ! j) \<noteq> k"
  shows "scan_key tte k 0 = Some r"
proof (cases "scan_key tte k 0")
  case None
  with assms show ?thesis by (auto simp: scan_key_None)
next
  case (Some i)
  from scan_key_Some[OF Some] assms have "i = r"
    by (metis le0 linorder_neqE_nat)
  with Some show ?thesis by simp
qed

lemma get_set_entry_same:
  "c < length tbl \<Longrightarrow> r < length (entry (tbl ! c)) \<Longrightarrow> get_entry (set_entry tbl c r e) c r = e"
  by (simp add: get_entry_def set_entry_def)

lemma get_set_entry_other:
  "c' \<noteq> c \<or> j \<noteq> r \<Longrightarrow> get_entry (set_entry tbl c r e) c' j = get_entry tbl c' j"
  by (cases "c < length tbl"; cases "c' = c")
     (auto simp: get_entry_def set_entry_def list_update_beyond)

lemma length_set_entry [simp]: "length (set_entry tbl c r e) = length tbl"
  by (simp add: set_entry_def)

lemma entry_set_entry:
  "c < length tbl \<Longrightarrow> entry (set_entry tbl c r e ! c) = (entry (tbl ! c))[r := e]"
  by (simp add: set_entry_def)

lemma padding_set_entry: "padding (set_entry tbl c r e ! c') = padding (tbl ! c')"
  by (cases "c < length tbl"; cases "c' = c") (auto simp: set_entry_def list_update_beyond)

lemma cluster_ok_set_entry:
  "list_all cluster_ok tbl \<Longrightarrow> list_all cluster_ok (set_entry tbl c r e)"
  by (cases "c < length tbl")
     (auto simp: set_entry_def list_all_length nth_list_update cluster_ok_def)

lemma tt_shape_nth:
  "tt_shape tt \<Longrightarrow> c < clusterCount tt \<Longrightarrow> length (entry (table tt ! c)) = ClusterSize"
  by (simp add: tt_shape_def list_all_length cluster_ok_def)

section \<open>The packed generation and bound byte\<close>

lemma low3_split: "(g :: 8 word) AND 0x7 = 0 \<Longrightarrow> g AND 0xF8 = g"
proof -
  assume a: "g AND 0x7 = 0"
  have "(0x7 OR 0xF8 :: 8 word) = - 1" by simp
  then have "g = g AND (0x7 OR 0xF8)" by (simp only: and.right_neutral)
  also have "\<dots> = (g AND 0x7) OR (g AND 0xF8)" by (simp only: bit.conj_disj_distrib)
  finally show ?thesis using a by simp
qed

lemma low3_and3: "(g :: 8 word) AND 0x7 = 0 \<Longrightarrow> g AND 0x3 = 0"
proof -
  assume a: "g AND 0x7 = 0"
  have "g AND 0x3 = g AND (0x7 AND 0x3)" by simp
  also have "\<dots> = (g AND 0x7) AND 0x3" by (simp only: and.assoc)
  finally show ?thesis using a by simp
qed

lemma low3_and4: "(g :: 8 word) AND 0x7 = 0 \<Longrightarrow> g AND 0x4 = 0"
proof -
  assume a: "g AND 0x7 = 0"
  have "g AND 0x4 = g AND (0x7 AND 0x4)" by simp
  also have "\<dots> = (g AND 0x7) AND 0x4" by (simp only: and.assoc)
  finally show ?thesis using a by simp
qed


lemma gen_bound_byte_low3:
  "g AND 0x7 = 0 \<Longrightarrow> gen_bound_byte g pv b AND 0x7 = push_bit 2 (of_bool pv) OR bound_bits b"
  by (cases pv; cases b) (simp_all add: gen_bound_byte_def bit.conj_disj_distrib2)

lemma gen_bound_byte_refresh:
  "g AND 0x7 = 0 \<Longrightarrow> g OR (gen_bound_byte g pv b AND 0x7) = gen_bound_byte g pv b"
  by (simp add: gen_bound_byte_low3) (simp add: gen_bound_byte_def or.assoc)

lemma gen_bound_byte_generation:
  "g AND 0x7 = 0 \<Longrightarrow> entry_generation (gen_bound_byte g pv b) = g"
  by (cases pv; cases b) (simp_all add: gen_bound_byte_def entry_generation_def bit.conj_disj_distrib2 low3_split)

lemma gen_bound_byte_is_pv:
  "g AND 0x7 = 0 \<Longrightarrow> entry_is_pv (gen_bound_byte g pv b) = pv"
  by (cases pv; cases b) (simp_all add: gen_bound_byte_def entry_is_pv_def bit.conj_disj_distrib2 low3_and4)

lemma gen_bound_byte_bound:
  "g AND 0x7 = 0 \<Longrightarrow> entry_bound (gen_bound_byte g pv b) = b"
  by (cases pv; cases b) (simp_all add: gen_bound_byte_def entry_bound_def bit.conj_disj_distrib2 low3_and3)

lemma depth_roundtrip:
  "0 \<le> d - off \<Longrightarrow> d - off \<le> 255 \<Longrightarrow> stored_to_depth off (word_of_int (d - off)) = d"
proof -
  assume a: "0 \<le> d - off" "d - off \<le> 255"
  define x where "x = d - off"
  have "uint (word_of_int x :: 8 word) = x mod 2 ^ 8"
    by (simp add: uint_word_of_int_eq take_bit_eq_mod)
  also have "\<dots> = x" using a by (simp add: x_def)
  finally show ?thesis by (simp add: stored_to_depth_def x_def del: of_int_diff)
qed

section \<open>probe and save on a well-formed table\<close>

text \<open>The equations that evaluate the operations on a concrete table.\<close>

lemmas demo_eval =
  demo_full_def demo_entry_def demo_key_def tt_shape_def cluster_ok_def ClusterSize_def
  first_entry_def key_signature_def gen_bound_byte_def rscore_def
  select_victim_def phase_match_def phase_empty_def phase_least_def scan_empty_def
  scan_key.simps scan_least.simps save_def probe_def write_entry_def set_entry_def get_entry_def

lemma save_eq:
  assumes "tt_shape tt" "0 < clusterCount tt"
    and "select_victim (generation8 tt) (entry (table tt ! first_entry tt k)) (key_signature k) = Some r"
  shows "save off tt k v pv b d m ev =
     Inr (tt\<lparr>table := set_entry (table tt) (first_entry tt k) r
            (write_entry off (generation8 tt) (get_entry (table tt) (first_entry tt k) r)
               (key_signature k) v pv b d m ev)\<rparr>)"
proof -
  have "first_entry tt k < length (table tt)"
    using assms(1,2) first_entry_less[of tt k] by (simp add: tt_shape_def)
  with assms(3) show ?thesis by (simp add: save_def Let_def)
qed

lemma probe_hit_eq:
  assumes "tt_shape tt" "0 < clusterCount tt"
    and "scan_key (entry (table tt ! first_entry tt key)) (key_signature key) 0 = Some i"
  shows "probe tt key =
     Inr (tt\<lparr>table := set_entry (table tt) (first_entry tt key) i
            ((get_entry (table tt) (first_entry tt key) i)
               \<lparr>genBound8 := generation8 tt OR
                  (genBound8 (get_entry (table tt) (first_entry tt key) i) AND 0x7)\<rparr>)\<rparr>,
          True, EntryRef (first_entry tt key) i)"
proof -
  have "first_entry tt key < length (table tt)"
    using assms(1,2) first_entry_less[of tt key] by (simp add: tt_shape_def)
  with assms(3) show ?thesis by (simp add: probe_def Let_def)
qed

lemma probe_miss_eq:
  assumes "tt_shape tt" "0 < clusterCount tt"
    and "scan_key (entry (table tt ! first_entry tt key)) (key_signature key) 0 = None"
  shows "probe tt key = Inr (tt, False, nullptr)"
proof -
  have "first_entry tt key < length (table tt)"
    using assms(1,2) first_entry_less[of tt key] by (simp add: tt_shape_def)
  with assms(3) show ?thesis by (simp add: probe_def Let_def)
qed

lemma all_less_ClusterSize: "(\<forall>j<ClusterSize. P j) \<longleftrightarrow> P 0 \<and> P 1 \<and> P 2"
proof -
  have "j < ClusterSize \<longleftrightarrow> j = 0 \<or> j = 1 \<or> j = 2" for j
    by (auto simp: ClusterSize_def)
  then show ?thesis by auto
qed

lemma ex_less_ClusterSize: "(\<exists>j<ClusterSize. P j) \<longleftrightarrow> P 0 \<or> P 1 \<or> P 2"
proof -
  have "j < ClusterSize \<longleftrightarrow> j = 0 \<or> j = 1 \<or> j = 2" for j
    by (auto simp: ClusterSize_def)
  then show ?thesis by auto
qed

lemma zero_cluster_eq:
  "zero_cluster = \<lparr>entry = [zero_entry, zero_entry, zero_entry], padding = [0, 0]\<rparr>"
  by (simp add: zero_cluster_def ClusterSize_def numeral_3_eq_3 numeral_2_eq_2)

lemmas demo_tables =
  demo_tie_def demo_aged_def demo_cleared_def demo_saved_def demo_key0_def demo_zsig_def
  zero_cluster_eq zero_entry_def Let_def tt_wf_def entry_bound_def entry_is_pv_def
  entry_generation_def stored_to_depth_def

lemma write_entry_fields:
  "move16 (write_entry off g e k16 v pv b d m ev) =
     (if m = 0 \<and> key16 e = k16 then move16 e else m)"
  "key16 (write_entry off g e k16 v pv b d m ev) = k16"
  "value16 (write_entry off g e k16 v pv b d m ev) = v"
  "eval16 (write_entry off g e k16 v pv b d m ev) = ev"
  "depth8 (write_entry off g e k16 v pv b d m ev) = word_of_int (d - off)"
  "genBound8 (write_entry off g e k16 v pv b d m ev) = gen_bound_byte g pv b"
  by (simp_all add: write_entry_def Let_def del: of_int_diff)

lemma refresh_high:
  "(g :: 8 word) AND 0x7 = 0 \<Longrightarrow> (g OR (x AND 0x7)) AND 0xF8 = g"
proof -
  assume a: "g AND 0x7 = 0"
  have "(g OR (x AND 0x7)) AND 0xF8 = (g AND 0xF8) OR (x AND (0x7 AND 0xF8))"
    by (simp only: bit.conj_disj_distrib2 and.assoc)
  then show ?thesis using low3_split[OF a] by simp
qed

lemma refresh_low:
  "(g :: 8 word) AND 0x7 = 0 \<Longrightarrow> (g OR (x AND 0x7)) AND 0x7 = x AND 0x7"
proof -
  assume a: "g AND 0x7 = 0"
  have "(g OR (x AND 0x7)) AND 0x7 = (g AND 0x7) OR (x AND (0x7 AND 0x7))"
    by (simp only: bit.conj_disj_distrib2 and.assoc)
  then show ?thesis using a by simp
qed

lemma and7_and3: "((y :: 8 word) AND 0x7) AND 0x3 = y AND 0x3"
proof -
  have "(y AND 0x7) AND 0x3 = y AND (0x7 AND 0x3)" by (simp only: and.assoc)
  then show ?thesis by simp
qed

lemma and7_and4: "((y :: 8 word) AND 0x7) AND 0x4 = y AND 0x4"
proof -
  have "(y AND 0x7) AND 0x4 = y AND (0x7 AND 0x4)" by (simp only: and.assoc)
  then show ?thesis by simp
qed

lemma low3_eq_bound:
  "(y :: 8 word) AND 0x7 = x AND 0x7 \<Longrightarrow> entry_bound y = entry_bound x"
  using and7_and3[of y] and7_and3[of x] by (simp add: entry_bound_def)

lemma low3_eq_pv:
  "(y :: 8 word) AND 0x7 = x AND 0x7 \<Longrightarrow> entry_is_pv y = entry_is_pv x"
  using and7_and4[of y] and7_and4[of x] by (simp add: entry_is_pv_def)

lemma entry_bytes_genBound8:
  "entry_bytes (e\<lparr>genBound8 := x\<rparr>) = (entry_bytes e)[8 := x]"
  by (simp add: entry_bytes_def bytes16_def)

lemma demo_full_ok: "tt_shape demo_full" "0 < clusterCount demo_full" "tt_wf demo_full"
  by (simp_all add: demo_eval demo_tables)

subsection \<open>The victim pointer of save\<close>

text \<open>
  Claim C9. In every execution of \<open>save\<close> the victim pointer \<open>replace\<close> has been assigned
  when the write phase reads it: \<open>save\<close> never ends in a read of an unassigned pointer;
  when the two scans leave \<open>success\<close> false the third phase starts from the first entry of
  the cluster; and the victim selection always yields an index \<open>r\<close> below \<open>ClusterSize\<close>.
  On a table that holds its \<open>clusterCount > 0\<close> clusters, that index is a valid entry of
  the key's cluster and \<open>save\<close> writes there.
\<close>

theorem save_replace_assigned:
  "save off tt k v pv b d m ev \<noteq> Inl Uninitialized \<and>
   phase_least g tte (None, False) = (Some (scan_least g tte 0 1), False) \<and>
   (\<exists>r. select_victim (generation8 tt) (entry (table tt ! first_entry tt k)) (key_signature k)
           = Some r \<and>
        r < ClusterSize \<and>
        (tt_shape tt \<and> 0 < clusterCount tt \<longrightarrow>
           first_entry tt k < length (table tt) \<and>
           r < length (entry (table tt ! first_entry tt k)) \<and>
           save off tt k v pv b d m ev =
             Inr (tt\<lparr>table := set_entry (table tt) (first_entry tt k) r
                    (write_entry off (generation8 tt) (get_entry (table tt) (first_entry tt k) r)
                       (key_signature k) v pv b d m ev)\<rparr>)))"
proof -
  obtain r where r: "select_victim (generation8 tt) (entry (table tt ! first_entry tt k))
      (key_signature k) = Some r" "r < ClusterSize"
    using select_victim_Some by blast
  have a: "save off tt k v pv b d m ev \<noteq> Inl Uninitialized"
    using r(1) by (simp add: save_def Let_def)
  have b: "phase_least g tte (None, False) = (Some (scan_least g tte 0 1), False)"
    by (simp add: phase_least_def)
  have c: "first_entry tt k < length (table tt) \<and>
           r < length (entry (table tt ! first_entry tt k)) \<and>
           save off tt k v pv b d m ev =
             Inr (tt\<lparr>table := set_entry (table tt) (first_entry tt k) r
                    (write_entry off (generation8 tt) (get_entry (table tt) (first_entry tt k) r)
                       (key_signature k) v pv b d m ev)\<rparr>)"
    if wf: "tt_shape tt \<and> 0 < clusterCount tt"
  proof -
    have lt: "first_entry tt k < clusterCount tt" using wf first_entry_less by blast
    then have "first_entry tt k < length (table tt)" using wf by (simp add: tt_shape_def)
    moreover have "r < length (entry (table tt ! first_entry tt k))"
      using tt_shape_nth[OF _ lt] wf r(2) by simp
    ultimately show ?thesis using save_eq[OF _ _ r(1)] wf by blast
  qed
  from a b c r show ?thesis by blast
qed

text \<open>
  The theorem at the full example cluster: neither scan succeeds, the third phase picks
  entry 1 (depth 2), and \<open>save\<close> writes there.
\<close>

theorem save_replace_assigned_witness:
  "tt_shape demo_full \<and> 0 < clusterCount demo_full \<and>
   save (- 6) demo_full demo_key 7 False BOUND_LOWER 7 0 9 \<noteq> Inl Uninitialized \<and>
   select_victim (generation8 demo_full) (entry (table demo_full ! first_entry demo_full demo_key))
      (key_signature demo_key) = Some 1 \<and>
   save (- 6) demo_full demo_key 7 False BOUND_LOWER 7 0 9 =
     Inr (demo_full\<lparr>table := set_entry (table demo_full) 0 1
        (write_entry (- 6) 8 (demo_entry 2 2) 0xDEAD 7 False BOUND_LOWER 7 0 9)\<rparr>)"
  using save_replace_assigned [of "- 6" demo_full demo_key 7 False BOUND_LOWER 7 0 9]
  by (simp add: demo_eval)

subsection \<open>Victim selection\<close>

text \<open>
  The three phases in terms of \<open>rscore\<close>, the value the third loop compares.
\<close>

lemma save_victim_phases_rscore:
  assumes "tt_shape tt" and "0 < clusterCount tt"
  shows "\<exists>r. r < ClusterSize \<and>
     save off tt k v pv b d m ev =
       Inr (tt\<lparr>table := set_entry (table tt) (first_entry tt k) r
              (write_entry off (generation8 tt) (get_entry (table tt) (first_entry tt k) r)
                 (key_signature k) v pv b d m ev)\<rparr>) \<and>
     (let tte = entry (table tt ! first_entry tt k);
          g = generation8 tt;
          k16 = key_signature k
      in if \<exists>i<ClusterSize. key16 (tte ! i) = k16
         then key16 (tte ! r) = k16 \<and> (\<forall>j<r. key16 (tte ! j) \<noteq> k16)
         else if \<exists>i<ClusterSize. key16 (tte ! i) = 0
         then key16 (tte ! r) = 0 \<and> (\<forall>j<r. key16 (tte ! j) \<noteq> 0)
         else (\<forall>j<ClusterSize. rscore g (tte ! r) \<le> rscore g (tte ! j)) \<and>
              (\<forall>j<r. rscore g (tte ! r) < rscore g (tte ! j)))"
proof -
  define tte where "tte = entry (table tt ! first_entry tt k)"
  define g where "g = generation8 tt"
  define k16 where "k16 = key_signature k"
  have sel: "\<exists>r. r < ClusterSize \<and> select_victim g tte k16 = Some r \<and>
     (if \<exists>i<ClusterSize. key16 (tte ! i) = k16
         then key16 (tte ! r) = k16 \<and> (\<forall>j<r. key16 (tte ! j) \<noteq> k16)
         else if \<exists>i<ClusterSize. key16 (tte ! i) = 0
         then key16 (tte ! r) = 0 \<and> (\<forall>j<r. key16 (tte ! j) \<noteq> 0)
         else (\<forall>j<ClusterSize. rscore g (tte ! r) \<le> rscore g (tte ! j)) \<and>
              (\<forall>j<r. rscore g (tte ! r) < rscore g (tte ! j)))"
  proof (cases "scan_key tte k16 0")
    case (Some i)
    from scan_key_Some[OF Some] have "i < ClusterSize" "key16 (tte ! i) = k16"
      "\<forall>j<i. key16 (tte ! j) \<noteq> k16" by auto
    moreover have "\<exists>i<ClusterSize. key16 (tte ! i) = k16" using calculation by blast
    ultimately show ?thesis using select_victim_match[OF Some, of g] by auto
  next
    case n1: None
    then have no1: "\<not> (\<exists>i<ClusterSize. key16 (tte ! i) = k16)"
      by (auto simp: scan_key_None)
    show ?thesis
    proof (cases "scan_key tte 0 0")
      case (Some i)
      from scan_key_Some[OF Some] have "i < ClusterSize" "key16 (tte ! i) = 0"
        "\<forall>j<i. key16 (tte ! j) \<noteq> 0" by auto
      moreover have "\<exists>i<ClusterSize. key16 (tte ! i) = 0" using calculation by blast
      ultimately show ?thesis using select_victim_empty[OF n1 Some, of g] no1 by auto
    next
      case None
      then have no2: "\<not> (\<exists>i<ClusterSize. key16 (tte ! i) = 0)"
        by (auto simp: scan_key_None)
      define r where "r = scan_least g tte 0 1"
      have lt: "r < ClusterSize" unfolding r_def by (rule scan_least_less)
      have p: "rscore g (tte ! r) \<le> rscore g (tte ! 0)"
        "r \<noteq> 0 \<longrightarrow> rscore g (tte ! r) < rscore g (tte ! 0)"
        "\<forall>j. 1 \<le> j \<and> j < ClusterSize \<longrightarrow> rscore g (tte ! r) \<le> rscore g (tte ! j)"
        "\<forall>j. 1 \<le> j \<and> j < r \<longrightarrow> rscore g (tte ! r) < rscore g (tte ! j)"
        using scan_least_props[of 0 1 g tte] unfolding r_def by auto
      have a: "\<forall>j<ClusterSize. rscore g (tte ! r) \<le> rscore g (tte ! j)"
      proof (intro allI impI)
        fix j assume "j < ClusterSize"
        then show "rscore g (tte ! r) \<le> rscore g (tte ! j)"
          using p(1,3) by (cases "j = 0") auto
      qed
      have b: "\<forall>j<r. rscore g (tte ! r) < rscore g (tte ! j)"
      proof (intro allI impI)
        fix j assume "j < r"
        then show "rscore g (tte ! r) < rscore g (tte ! j)"
          using p(2,4) by (cases "j = 0") auto
      qed
      from select_victim_least[OF n1 None, of g] lt a b no1 no2 show ?thesis
        unfolding r_def by auto
    qed
  qed
  then obtain r where r: "r < ClusterSize" "select_victim g tte k16 = Some r"
     "(if \<exists>i<ClusterSize. key16 (tte ! i) = k16
         then key16 (tte ! r) = k16 \<and> (\<forall>j<r. key16 (tte ! j) \<noteq> k16)
         else if \<exists>i<ClusterSize. key16 (tte ! i) = 0
         then key16 (tte ! r) = 0 \<and> (\<forall>j<r. key16 (tte ! j) \<noteq> 0)
         else (\<forall>j<ClusterSize. rscore g (tte ! r) \<le> rscore g (tte ! j)) \<and>
              (\<forall>j<r. rscore g (tte ! r) < rscore g (tte ! j)))" by blast
  have "save off tt k v pv b d m ev =
       Inr (tt\<lparr>table := set_entry (table tt) (first_entry tt k) r
              (write_entry off (generation8 tt) (get_entry (table tt) (first_entry tt k) r)
                 (key_signature k) v pv b d m ev)\<rparr>)"
    using save_eq[OF assms] r(2) unfolding tte_def g_def k16_def by blast
  with r(1,3) show ?thesis
    unfolding Let_def tte_def g_def k16_def by blast
qed

text \<open>
  Claim C3. On a table that holds its \<open>clusterCount > 0\<close> clusters, \<open>save\<close> writes to the
  entry \<open>r\<close> of the key's cluster chosen in three phases: if some entry has the key's
  signature, \<open>r\<close> is the first such entry; otherwise, if some entry has \<open>key16 = 0\<close>, the
  first such entry; otherwise \<open>r\<close> minimises the replace value
  \<open>depth8 - ((263 + generation8 - genBound8) & 0xF8)\<close>, written out in the statement as
  \<open>score\<close>, and every entry scanned before \<open>r\<close> has a strictly greater replace value, so on
  a tie the entry scanned earlier stays the victim.
\<close>

theorem save_victim_three_phases:
  assumes "tt_shape tt" and "0 < clusterCount tt"
  shows "\<exists>r. r < ClusterSize \<and>
     save off tt k v pv b d m ev =
       Inr (tt\<lparr>table := set_entry (table tt) (first_entry tt k) r
              (write_entry off (generation8 tt) (get_entry (table tt) (first_entry tt k) r)
                 (key_signature k) v pv b d m ev)\<rparr>) \<and>
     (let tte = entry (table tt ! first_entry tt k);
          k16 = key_signature k;
          score = (\<lambda>e. uint (depth8 e)
                     - ((263 + uint (generation8 tt) - uint (genBound8 e)) AND 0xF8))
      in if \<exists>i<ClusterSize. key16 (tte ! i) = k16
         then key16 (tte ! r) = k16 \<and> (\<forall>j<r. key16 (tte ! j) \<noteq> k16)
         else if \<exists>i<ClusterSize. key16 (tte ! i) = 0
         then key16 (tte ! r) = 0 \<and> (\<forall>j<r. key16 (tte ! j) \<noteq> 0)
         else (\<forall>j<ClusterSize. score (tte ! r) \<le> score (tte ! j)) \<and>
              (\<forall>j<r. score (tte ! r) < score (tte ! j)))"
  using save_victim_phases_rscore [OF assms, of off k v pv b d m ev]
  unfolding Let_def rscore_def .

text \<open>
  The theorem at \<open>demo_old\<close>, where both scans fail and age decides: the replace values
  are \<open>10 - 24 = -14\<close>, 2 and 5, so entry 0, the deepest, is overwritten. In \<open>demo_wrap\<close>
  the values are \<open>9 - 8 = 1\<close>, 3 and 4 across the wrap of the counter, and entry 0 is
  chosen. In \<open>demo_full\<close> all entries are current and entry 1, of depth 2, is chosen; in
  \<open>demo_tie\<close> entries 0 and 1 tie at 5 and entry 0 is chosen.
\<close>

theorem save_victim_three_phases_witness:
  "tt_shape demo_old \<and> 0 < clusterCount demo_old \<and>
   save (- 6) demo_old demo_key 7 False BOUND_LOWER 7 0 9 =
     Inr (demo_old\<lparr>table :=
       [\<lparr>entry = [\<lparr>key16 = 0xDEAD, move16 = 0, value16 = 7, eval16 = 9, genBound8 = 34,
                   depth8 = 13\<rparr>,
                  demo_entry_at 2 39 2, demo_entry_at 3 39 5],
         padding = [0, 0]\<rparr>]\<rparr>) \<and>
   rscore 32 (demo_entry_at 1 15 10) = - 14 \<and> rscore 32 (demo_entry_at 2 39 2) = 2 \<and>
   rscore 32 (demo_entry_at 3 39 5) = 5 \<and>
   rscore 0 (demo_entry_at 1 251 9) = 1 \<and> rscore 0 (demo_entry_at 2 3 3) = 3 \<and>
   rscore 0 (demo_entry_at 3 3 4) = 4 \<and>
   select_victim 0 (entry (table demo_wrap ! 0)) 0xDEAD = Some 0 \<and>
   select_victim 8 (entry (table demo_full ! 0)) 0xDEAD = Some 1 \<and>
   select_victim 8 (entry (table demo_tie ! 0)) 0xDEAD = Some 0"
proof -
  have h: "tt_shape demo_old" "0 < clusterCount demo_old"
    by (simp_all add: demo_old_def demo_entry_at_def tt_shape_def cluster_ok_def ClusterSize_def)
  show ?thesis
    using h save_victim_three_phases [OF h, where off = "- 6" and k = demo_key and v = 7
        and pv = False and b = BOUND_LOWER and d = 7 and m = 0 and ev = 9]
    by (simp add: demo_old_def demo_wrap_def demo_entry_at_def demo_eval demo_tables)
qed

subsection \<open>The write phase\<close>

text \<open>
  Claim C4. In the write phase of \<open>save\<close> the victim keeps its \<open>move16\<close> exactly when the
  incoming move is 0 and the victim's \<open>key16\<close> already is the key's signature; otherwise
  \<open>move16\<close> becomes the incoming move. \<open>key16\<close>, \<open>value16\<close>, \<open>eval16\<close>, the stored depth
  \<open>d - DEPTH_OFFSET\<close> and \<open>genBound8\<close> (the current generation, the new pv flag and the new
  bound) are written in every case; no other entry and nothing else of the table changes.
\<close>

theorem save_write_phase:
  assumes "tt_shape tt" and "0 < clusterCount tt"
  shows "\<exists>r tt'. r < ClusterSize \<and>
     select_victim (generation8 tt) (entry (table tt ! first_entry tt k)) (key_signature k)
       = Some r \<and>
     save off tt k v pv b d m ev = Inr tt' \<and>
     (let old = get_entry (table tt) (first_entry tt k) r;
          new = get_entry (table tt') (first_entry tt k) r
      in move16 new = (if m = 0 \<and> key16 old = key_signature k then move16 old else m) \<and>
         key16 new = key_signature k \<and>
         value16 new = v \<and>
         eval16 new = ev \<and>
         depth8 new = word_of_int (d - off) \<and>
         (0 \<le> d - off \<and> d - off \<le> 255 \<longrightarrow> uint (depth8 new) = d - off) \<and>
         genBound8 new = generation8 tt OR push_bit 2 (of_bool pv) OR bound_bits b \<and>
         (generation8 tt AND 0x7 = 0 \<longrightarrow>
            entry_generation (genBound8 new) = generation8 tt \<and>
            entry_is_pv (genBound8 new) = pv \<and>
            entry_bound (genBound8 new) = b)) \<and>
     (\<forall>c j. c \<noteq> first_entry tt k \<or> j \<noteq> r \<longrightarrow>
        get_entry (table tt') c j = get_entry (table tt) c j) \<and>
     clusterCount tt' = clusterCount tt \<and> generation8 tt' = generation8 tt"
proof -
  define c where "c = first_entry tt k"
  obtain r where r: "select_victim (generation8 tt) (entry (table tt ! c)) (key_signature k)
      = Some r" "r < ClusterSize"
    using select_victim_Some by blast
  define old where "old = get_entry (table tt) c r"
  define new where "new = write_entry off (generation8 tt) old (key_signature k) v pv b d m ev"
  define tt' where "tt' = tt\<lparr>table := set_entry (table tt) c r new\<rparr>"
  have sv: "save off tt k v pv b d m ev = Inr tt'"
    using save_eq[OF assms r(1)[unfolded c_def]]
    by (simp add: tt'_def new_def old_def c_def)
  have clt: "c < clusterCount tt" unfolding c_def using assms(2) by (rule first_entry_less)
  then have clen: "c < length (table tt)" using assms(1) by (simp add: tt_shape_def)
  have rlen: "r < length (entry (table tt ! c))"
    using tt_shape_nth[OF assms(1) clt] r(2) by simp
  have get: "get_entry (table tt') c r = new"
    unfolding tt'_def using get_set_entry_same[OF clen rlen] by simp
  have other: "\<forall>c' j. c' \<noteq> c \<or> j \<noteq> r \<longrightarrow>
        get_entry (table tt') c' j = get_entry (table tt) c' j"
    unfolding tt'_def using get_set_entry_other by simp
  have dep: "0 \<le> d - off \<and> d - off \<le> 255 \<longrightarrow> uint (depth8 new) = d - off"
    using depth_roundtrip[of d off] 
    by (auto simp: new_def write_entry_fields stored_to_depth_def)
  have gb: "generation8 tt AND 0x7 = 0 \<longrightarrow>
            entry_generation (genBound8 new) = generation8 tt \<and>
            entry_is_pv (genBound8 new) = pv \<and>
            entry_bound (genBound8 new) = b"
    by (simp add: new_def write_entry_fields gen_bound_byte_generation
        gen_bound_byte_is_pv gen_bound_byte_bound)
  have fields: "move16 new = (if m = 0 \<and> key16 old = key_signature k then move16 old else m)"
    "key16 new = key_signature k" "value16 new = v" "eval16 new = ev"
    "depth8 new = word_of_int (d - off)"
    "genBound8 new = generation8 tt OR push_bit 2 (of_bool pv) OR bound_bits b"
    by (simp_all add: new_def write_entry_fields gen_bound_byte_def del: of_int_diff)
  have rest: "clusterCount tt' = clusterCount tt \<and> generation8 tt' = generation8 tt"
    by (simp add: tt'_def)
  show ?thesis
    apply (rule exI[of _ r], rule exI[of _ tt'])
    unfolding Let_def c_def[symmetric] get old_def[symmetric]
    using r sv fields dep gb other rest by blast
qed

text \<open>
  The theorem where the position is stored again without a move: the move \<open>0x1234\<close> stays
  and the other fields are replaced.
\<close>

theorem save_write_phase_witness:
  "tt_shape demo_saved \<and> 0 < clusterCount demo_saved \<and>
   save (- 6) demo_saved demo_key 50 False BOUND_LOWER 12 0 (- 4) =
     Inr (demo_saved\<lparr>table :=
       [\<lparr>entry = [\<lparr>key16 = 0xDEAD, move16 = 0x1234, value16 = 50, eval16 = - 4,
                   genBound8 = 10, depth8 = 18\<rparr>, zero_entry, zero_entry],
         padding = [0, 0]\<rparr>]\<rparr>)"
proof -
  have h: "tt_shape demo_saved" "0 < clusterCount demo_saved"
    by (simp_all add: demo_eval demo_tables)
  show ?thesis
    using h save_write_phase [OF h, where off = "- 6" and k = demo_key and v = 50
        and pv = False and b = BOUND_LOWER and d = 12 and m = 0 and ev = "- 4"]
    by (simp add: demo_eval demo_tables)
qed

subsection \<open>A probe that hits\<close>

text \<open>
  Claim C5. When some entry of the key's cluster has the key's signature, \<open>probe\<close> returns
  \<open>found = true\<close> with a pointer to the first such entry and changes only the byte
  \<open>genBound8\<close> of that entry: its high five bits become the current generation, its low
  three bits (pv flag and bound) stay, the other five fields and so the other nine bytes
  of the entry stay, and every other entry, the padding and the rest of the table object
  stay.
\<close>

theorem probe_hit_refresh_only:
  assumes "tt_wf tt"
    and "\<exists>j<ClusterSize. key16 (get_entry (table tt) (first_entry tt key) j) = key_signature key"
  shows "\<exists>i tt'. i < ClusterSize \<and>
     probe tt key = Inr (tt', True, EntryRef (first_entry tt key) i) \<and>
     (let old = get_entry (table tt) (first_entry tt key) i;
          new = get_entry (table tt') (first_entry tt key) i
      in key16 old = key_signature key \<and>
         genBound8 new AND 0xF8 = generation8 tt \<and>
         genBound8 new AND 0x7 = genBound8 old AND 0x7 \<and>
         entry_is_pv (genBound8 new) = entry_is_pv (genBound8 old) \<and>
         entry_bound (genBound8 new) = entry_bound (genBound8 old) \<and>
         key16 new = key16 old \<and> move16 new = move16 old \<and> value16 new = value16 old \<and>
         eval16 new = eval16 old \<and> depth8 new = depth8 old \<and>
         entry_bytes new = (entry_bytes old)[8 := genBound8 new]) \<and>
     (\<forall>c j. c \<noteq> first_entry tt key \<or> j \<noteq> i \<longrightarrow>
        get_entry (table tt') c j = get_entry (table tt) c j) \<and>
     (\<forall>c. padding (table tt' ! c) = padding (table tt ! c)) \<and>
     length (table tt') = length (table tt) \<and>
     clusterCount tt' = clusterCount tt \<and> generation8 tt' = generation8 tt"
proof -
  define c where "c = first_entry tt key"
  define tte where "tte = entry (table tt ! c)"
  have sh: "tt_shape tt" and pos: "0 < clusterCount tt" and g: "generation8 tt AND 0x7 = 0"
    using assms(1) by (simp_all add: tt_wf_def)
  from assms(2) have "scan_key tte (key_signature key) 0 \<noteq> None"
    unfolding scan_key_None tte_def c_def get_entry_def by auto
  then obtain i where i: "scan_key tte (key_signature key) 0 = Some i" by blast
  from scan_key_Some[OF i] have ilt: "i < ClusterSize" and ik: "key16 (tte ! i) = key_signature key"
    by auto
  define old where "old = get_entry (table tt) c i"
  define new where "new = old\<lparr>genBound8 := generation8 tt OR (genBound8 old AND 0x7)\<rparr>"
  define tt' where "tt' = tt\<lparr>table := set_entry (table tt) c i new\<rparr>"
  have pr: "probe tt key = Inr (tt', True, EntryRef c i)"
    using probe_hit_eq[OF sh pos i[unfolded tte_def c_def]]
    by (simp add: tt'_def new_def old_def c_def)
  have clt: "c < clusterCount tt" unfolding c_def using pos by (rule first_entry_less)
  then have clen: "c < length (table tt)" using sh by (simp add: tt_shape_def)
  have rlen: "i < length (entry (table tt ! c))"
    using tt_shape_nth[OF sh clt] ilt by simp
  have get: "get_entry (table tt') c i = new"
    unfolding tt'_def using get_set_entry_same[OF clen rlen] by simp
  have other: "\<forall>c' j. c' \<noteq> c \<or> j \<noteq> i \<longrightarrow>
        get_entry (table tt') c' j = get_entry (table tt) c' j"
    unfolding tt'_def using get_set_entry_other by simp
  have pad: "\<forall>c'. padding (table tt' ! c') = padding (table tt ! c')"
    unfolding tt'_def by (simp add: padding_set_entry)
  have low: "genBound8 new AND 0x7 = genBound8 old AND 0x7"
    unfolding new_def using refresh_low[OF g] by simp
  have fields: "key16 old = key_signature key"
    "genBound8 new AND 0xF8 = generation8 tt"
    "entry_is_pv (genBound8 new) = entry_is_pv (genBound8 old)"
    "entry_bound (genBound8 new) = entry_bound (genBound8 old)"
    "key16 new = key16 old" "move16 new = move16 old" "value16 new = value16 old"
    "eval16 new = eval16 old" "depth8 new = depth8 old"
    "entry_bytes new = (entry_bytes old)[8 := genBound8 new]"
    using ik low3_eq_pv[OF low] low3_eq_bound[OF low] refresh_high[OF g]
    by (simp_all add: old_def get_entry_def tte_def new_def entry_bytes_genBound8)
  have rest: "length (table tt') = length (table tt) \<and>
     clusterCount tt' = clusterCount tt \<and> generation8 tt' = generation8 tt"
    by (simp add: tt'_def)
  show ?thesis
    apply (rule exI[of _ i], rule exI[of _ tt'])
    unfolding Let_def c_def[symmetric] get old_def[symmetric]
    using ilt pr fields low other pad rest by blast
qed


text \<open>
  The theorem one search after the entries were written: the byte \<open>15\<close> (generation 8, pv,
  exact) becomes \<open>23\<close> (generation 16, pv, exact).
\<close>

theorem probe_hit_refresh_only_witness:
  "tt_wf demo_aged \<and>
   key16 (get_entry (table demo_aged) (first_entry demo_aged 0x0002000000000000) 1) =
     key_signature 0x0002000000000000 \<and>
   probe demo_aged 0x0002000000000000 =
     Inr (demo_aged\<lparr>table :=
       [\<lparr>entry = [demo_entry 1 8, (demo_entry 2 2)\<lparr>genBound8 := 23\<rparr>, demo_entry 3 5],
         padding = [0, 0]\<rparr>]\<rparr>, True, EntryRef 0 1) \<and>
   genBound8 (demo_entry 2 2) = 15"
proof -
  have h1: "tt_wf demo_aged" by (simp add: demo_eval demo_tables)
  have h2: "\<exists>j<ClusterSize. key16 (get_entry (table demo_aged)
      (first_entry demo_aged 0x0002000000000000) j) = key_signature 0x0002000000000000"
    unfolding ex_less_ClusterSize by (simp add: demo_eval demo_tables)
  show ?thesis
    using h1 probe_hit_refresh_only [OF h1 h2]
    by (simp add: demo_eval demo_tables)
qed

subsection \<open>A probe that misses\<close>

text \<open>
  Claim C1, as the code has it. When no entry of the key's cluster has the key's signature,
  \<open>probe\<close> leaves the table as it is and returns \<open>found = false\<close> with a null pointer.
\<close>

theorem probe_miss_null:
  assumes "tt_shape tt" and "0 < clusterCount tt"
    and "\<forall>j<ClusterSize. key16 (get_entry (table tt) (first_entry tt key) j) \<noteq> key_signature key"
  shows "probe tt key = Inr (tt, False, nullptr)"
proof -
  have "scan_key (entry (table tt ! first_entry tt key)) (key_signature key) 0 = None"
    unfolding scan_key_None using assms(3) by (simp add: get_entry_def)
  then show ?thesis by (rule probe_miss_eq[OF assms(1,2)])
qed

text \<open>The theorem at the full example cluster, which holds the signatures 1, 2 and 3.\<close>

theorem probe_miss_null_witness:
  "tt_shape demo_full \<and> 0 < clusterCount demo_full \<and>
   map key16 (entry (table demo_full ! first_entry demo_full demo_key)) = [1, 2, 3] \<and>
   key_signature demo_key = 0xDEAD \<and>
   probe demo_full demo_key = Inr (demo_full, False, nullptr)"
proof -
  have h: "tt_shape demo_full" "0 < clusterCount demo_full"
    "\<forall>j<ClusterSize. key16 (get_entry (table demo_full) (first_entry demo_full demo_key) j)
       \<noteq> key_signature demo_key"
    unfolding all_less_ClusterSize by (simp_all add: demo_eval)
  show ?thesis
    using h(1,2) probe_miss_null [OF h]
    by (simp add: demo_eval)
qed

text \<open>
  The claim as the specification words it asks for a pointer to the first entry of the
  cluster. On the table that \<open>resize(1)\<close> builds, the probe of \<open>demo_key\<close> misses and the
  pointer returned is null, not the address of entry 0 of cluster 28502.
\<close>

theorem probe_miss_not_first_entry:
  "map key16 (entry (table fresh_1mb ! first_entry fresh_1mb demo_key)) = [0, 0, 0] \<and>
   key_signature demo_key = 0xDEAD \<and>
   probe fresh_1mb demo_key = Inr (fresh_1mb, False, nullptr) \<and>
   nullptr \<noteq> EntryRef (first_entry fresh_1mb demo_key) 0"
proof -
  have fe: "first_entry fresh_1mb demo_key = 28502"
    by (simp add: fresh_1mb_def first_entry_def demo_key_def)
  have ks: "key_signature demo_key = 0xDEAD"
    by (simp add: key_signature_def demo_key_def)
  have tb: "table fresh_1mb ! 28502 = zero_cluster" "length (table fresh_1mb) = 32768"
    by (simp_all add: fresh_1mb_def)
  have sc: "scan_key (entry zero_cluster) 0xDEAD 0 = None"
    by (simp add: zero_cluster_eq zero_entry_def scan_key.simps ClusterSize_def)
  have "probe fresh_1mb demo_key = Inr (fresh_1mb, False, nullptr)"
    by (simp add: probe_def fe ks tb sc)
  then show ?thesis
    by (simp add: fe ks tb zero_cluster_eq zero_entry_def)
qed

subsection \<open>save followed by probe\<close>

text \<open>
  Claim C2. On a well-formed table, with \<open>0 \<le> d - DEPTH_OFFSET \<le> 255\<close>, \<open>save\<close> of a key
  followed at once by \<open>probe\<close> of the same key returns \<open>found = true\<close> and an entry with
  value \<open>v\<close>, eval \<open>ev\<close>, bound \<open>b\<close>, pv flag \<open>pv\<close> and depth \<open>d\<close>; its move is \<open>m\<close>, or,
  when \<open>m = 0\<close> and an entry with the key's signature was present before the \<open>save\<close>, the
  move that entry held. The bound may be any of the four, \<open>NONE\<close> included.
\<close>

theorem save_then_probe:
  assumes "tt_wf tt" and "0 \<le> d - off" and "d - off \<le> 255"
  shows "\<exists>tt1 tt2 r. r < ClusterSize \<and>
     save off tt k v pv b d m ev = Inr tt1 \<and>
     probe tt1 k = Inr (tt2, True, EntryRef (first_entry tt k) r) \<and>
     (let e = get_entry (table tt2) (first_entry tt k) r;
          old = get_entry (table tt) (first_entry tt k) r;
          present = (\<exists>j<ClusterSize.
             key16 (get_entry (table tt) (first_entry tt k) j) = key_signature k)
      in value16 e = v \<and>
         eval16 e = ev \<and>
         entry_bound (genBound8 e) = b \<and>
         entry_is_pv (genBound8 e) = pv \<and>
         stored_to_depth off (depth8 e) = d \<and>
         move16 e = (if m = 0 \<and> present then move16 old else m) \<and>
         (present \<longrightarrow> key16 old = key_signature k))"
proof -
  define c where "c = first_entry tt k"
  define k16 where "k16 = key_signature k"
  define tte where "tte = entry (table tt ! c)"
  have sh: "tt_shape tt" and pos: "0 < clusterCount tt" and g: "generation8 tt AND 0x7 = 0"
    using assms(1) by (simp_all add: tt_wf_def)
  obtain r where r: "select_victim (generation8 tt) tte k16 = Some r" "r < ClusterSize"
    "\<forall>j<r. key16 (tte ! j) \<noteq> k16"
    using select_victim_Some by blast
  define old where "old = get_entry (table tt) c r"
  define new where "new = write_entry off (generation8 tt) old k16 v pv b d m ev"
  define tt1 where "tt1 = tt\<lparr>table := set_entry (table tt) c r new\<rparr>"
  have sv: "save off tt k v pv b d m ev = Inr tt1"
    using save_eq[OF sh pos r(1)[unfolded tte_def c_def k16_def]]
    by (simp add: tt1_def new_def old_def c_def k16_def)
  have clt: "c < clusterCount tt" unfolding c_def using pos by (rule first_entry_less)
  then have clen: "c < length (table tt)" using sh by (simp add: tt_shape_def)
  have rlen: "r < length (entry (table tt ! c))"
    using tt_shape_nth[OF sh clt] r(2) by simp
  have sh1: "tt_shape tt1"
    using sh by (simp add: tt_shape_def tt1_def cluster_ok_set_entry)
  have pos1: "0 < clusterCount tt1" using pos by (simp add: tt1_def)
  have fe1: "first_entry tt1 k = c" by (simp add: first_entry_def tt1_def c_def)
  have ent1: "entry (table tt1 ! c) = tte[r := new]"
    unfolding tt1_def tte_def using entry_set_entry[OF clen] by simp
  have "scan_key (tte[r := new]) k16 0 = Some r"
  proof (rule scan_key_first[OF r(2)])
    show "key16 (tte[r := new] ! r) = k16"
      using rlen by (simp add: tte_def new_def write_entry_fields)
    show "\<forall>j<r. key16 (tte[r := new] ! j) \<noteq> k16"
      using r(3) by simp
  qed
  then have sk: "scan_key (entry (table tt1 ! first_entry tt1 k)) (key_signature k) 0 = Some r"
    by (simp add: fe1 ent1 k16_def)
  define e where "e = (get_entry (table tt1) c r)
     \<lparr>genBound8 := generation8 tt1 OR (genBound8 (get_entry (table tt1) c r) AND 0x7)\<rparr>"
  define tt2 where "tt2 = tt1\<lparr>table := set_entry (table tt1) c r e\<rparr>"
  have pr: "probe tt1 k = Inr (tt2, True, EntryRef c r)"
    using probe_hit_eq[OF sh1 pos1 sk] by (simp add: fe1 tt2_def e_def)
  have get1: "get_entry (table tt1) c r = new"
    unfolding tt1_def using get_set_entry_same[OF clen rlen] by simp
  have clen1: "c < length (table tt1)" using clen by (simp add: tt1_def)
  have rlen1: "r < length (entry (table tt1 ! c))" using rlen by (simp add: ent1 tte_def)
  have get2: "get_entry (table tt2) c r = e"
    unfolding tt2_def using get_set_entry_same[OF clen1 rlen1] by simp
  have gen1: "generation8 tt1 = generation8 tt" by (simp add: tt1_def)
  have gb: "genBound8 e = gen_bound_byte (generation8 tt) pv b"
    using gen_bound_byte_refresh[OF g, of pv b]
    by (simp add: e_def get1 new_def write_entry_fields gen1)
  have e_fields: "value16 e = v" "eval16 e = ev" "depth8 e = word_of_int (d - off)"
    "move16 e = (if m = 0 \<and> key16 old = k16 then move16 old else m)"
    by (simp_all add: e_def get1 new_def write_entry_fields del: of_int_diff)
  define present where "present = (\<exists>j<ClusterSize. key16 (get_entry (table tt) c j) = k16)"
  have pres: "present \<longleftrightarrow> key16 old = k16"
  proof
    assume present
    then have "scan_key tte k16 0 \<noteq> None"
      unfolding scan_key_None present_def tte_def get_entry_def by auto
    then obtain i where i: "scan_key tte k16 0 = Some i" by blast
    from select_victim_match[OF i, of "generation8 tt"] r(1) have "i = r" by simp
    with scan_key_Some[OF i] show "key16 old = k16"
      by (simp add: old_def get_entry_def tte_def)
  next
    assume "key16 old = k16"
    then show present unfolding present_def old_def using r(2) by blast
  qed
  have concl: "value16 e = v \<and> eval16 e = ev \<and>
         entry_bound (genBound8 e) = b \<and>
         entry_is_pv (genBound8 e) = pv \<and>
         stored_to_depth off (depth8 e) = d \<and>
         move16 e = (if m = 0 \<and> present then move16 old else m) \<and>
         (present \<longrightarrow> key16 old = k16)"
    using e_fields gb gen_bound_byte_bound[OF g] gen_bound_byte_is_pv[OF g]
      depth_roundtrip[OF assms(2,3)] pres
    by simp
  show ?thesis
    apply (rule exI[of _ tt1], rule exI[of _ tt2], rule exI[of _ r])
    unfolding Let_def c_def[symmetric] get2 old_def[symmetric] k16_def[symmetric]
      present_def[symmetric]
    using r(2) sv pr concl by blast
qed

text \<open>
  The theorem on a cleared cluster: the entry is stored and found again with all its
  fields.
\<close>

theorem save_then_probe_witness:
  "tt_wf demo_cleared \<and> (0::int) \<le> 10 - (- 6) \<and> (10::int) - (- 6) \<le> 255 \<and>
   save (- 6) demo_cleared demo_key 42 True BOUND_EXACT 10 0x1234 (- 5) = Inr demo_saved \<and>
   probe demo_saved demo_key = Inr (demo_saved, True, EntryRef 0 0) \<and>
   value16 (get_entry (table demo_saved) 0 0) = 42 \<and>
   eval16 (get_entry (table demo_saved) 0 0) = - 5 \<and>
   entry_bound (genBound8 (get_entry (table demo_saved) 0 0)) = BOUND_EXACT \<and>
   entry_is_pv (genBound8 (get_entry (table demo_saved) 0 0)) \<and>
   stored_to_depth (- 6) (depth8 (get_entry (table demo_saved) 0 0)) = 10 \<and>
   move16 (get_entry (table demo_saved) 0 0) = 0x1234"
proof -
  have h: "tt_wf demo_cleared" "(0::int) \<le> 10 - (- 6)" "(10::int) - (- 6) \<le> 255"
    by (simp_all add: demo_eval demo_tables)
  show ?thesis
    using h(1) save_then_probe [OF h, where k = demo_key and v = 42 and pv = True
        and b = BOUND_EXACT and m = "0x1234" and ev = "- 5"]
    by (simp add: demo_eval demo_tables)
qed

subsection \<open>Keys whose high 16 bits are zero\<close>

text \<open>
  Claim C10, as the code has it. For a key whose high 16 bits are 0, \<open>probe\<close> on a cluster
  that contains an all-zero entry returns \<open>found = true\<close> with a pointer to the first
  entry of the cluster whose \<open>key16\<close> is 0. When no entry with \<open>key16 = 0\<close> comes before the
  all-zero entry, the pointer is to that entry, which then carries bound \<open>NONE\<close>, no pv
  flag, move 0 and zero value, eval and depth fields: a hit without any \<open>save\<close>.
\<close>

theorem probe_zero_signature:
  assumes "tt_wf tt" and "key_signature key = 0" and "i < ClusterSize"
    and "get_entry (table tt) (first_entry tt key) i = zero_entry"
  shows "(\<exists>i' tt'. i' \<le> i \<and>
            probe tt key = Inr (tt', True, EntryRef (first_entry tt key) i') \<and>
            key16 (get_entry (table tt) (first_entry tt key) i') = 0 \<and>
            (\<forall>j<i'. key16 (get_entry (table tt) (first_entry tt key) j) \<noteq> 0)) \<and>
         ((\<forall>j<i. key16 (get_entry (table tt) (first_entry tt key) j) \<noteq> 0) \<longrightarrow>
            (\<exists>tt'. probe tt key = Inr (tt', True, EntryRef (first_entry tt key) i) \<and>
               (let e = get_entry (table tt') (first_entry tt key) i
                in key16 e = 0 \<and> entry_bound (genBound8 e) = BOUND_NONE \<and>
                   \<not> entry_is_pv (genBound8 e) \<and>
                   move16 e = 0 \<and> value16 e = 0 \<and> eval16 e = 0 \<and> depth8 e = 0)))"
proof -
  define c where "c = first_entry tt key"
  define tte where "tte = entry (table tt ! c)"
  have sh: "tt_shape tt" and pos: "0 < clusterCount tt" and g: "generation8 tt AND 0x7 = 0"
    using assms(1) by (simp_all add: tt_wf_def)
  have zi: "key16 (tte ! i) = 0"
    using assms(4) by (simp add: tte_def c_def get_entry_def zero_entry_def)
  then have "scan_key tte 0 0 \<noteq> None"
    unfolding scan_key_None using assms(3) by auto
  then obtain i' where i': "scan_key tte 0 0 = Some i'" by blast
  from scan_key_Some[OF i'] have i'p: "i' < ClusterSize" "key16 (tte ! i') = 0"
    "\<forall>j<i'. key16 (tte ! j) \<noteq> 0" by auto
  have le: "i' \<le> i" using i'p(3) zi by (meson not_le_imp_less)
  have clt: "c < clusterCount tt" unfolding c_def using pos by (rule first_entry_less)
  then have clen: "c < length (table tt)" using sh by (simp add: tt_shape_def)
  have pr: "probe tt key =
     Inr (tt\<lparr>table := set_entry (table tt) c i'
            ((get_entry (table tt) c i')
               \<lparr>genBound8 := generation8 tt OR (genBound8 (get_entry (table tt) c i') AND 0x7)\<rparr>)\<rparr>,
          True, EntryRef c i')"
    using probe_hit_eq[OF sh pos, of key i'] i' by (simp add: tte_def c_def assms(2))
  have part1: "\<exists>i' tt'. i' \<le> i \<and> probe tt key = Inr (tt', True, EntryRef c i') \<and>
            key16 (get_entry (table tt) c i') = 0 \<and>
            (\<forall>j<i'. key16 (get_entry (table tt) c j) \<noteq> 0)"
    using le pr i'p(2,3) unfolding get_entry_def tte_def by blast
  have part2: "\<exists>tt'. probe tt key = Inr (tt', True, EntryRef c i) \<and>
               (let e = get_entry (table tt') c i
                in key16 e = 0 \<and> entry_bound (genBound8 e) = BOUND_NONE \<and>
                   \<not> entry_is_pv (genBound8 e) \<and>
                   move16 e = 0 \<and> value16 e = 0 \<and> eval16 e = 0 \<and> depth8 e = 0)"
    if first: "\<forall>j<i. key16 (get_entry (table tt) c j) \<noteq> 0"
  proof -
    have "i' = i"
      using le first i'p(2) by (auto simp: get_entry_def tte_def order_le_less)
    have rlen: "i < length (entry (table tt ! c))"
      using tt_shape_nth[OF sh clt] assms(3) by simp
    define e where "e = zero_entry\<lparr>genBound8 := generation8 tt\<rparr>"
    have pr': "probe tt key = Inr (tt\<lparr>table := set_entry (table tt) c i e\<rparr>, True, EntryRef c i)"
      using pr assms(4) unfolding \<open>i' = i\<close> c_def e_def by (simp add: zero_entry_def)
    have get: "get_entry (table (tt\<lparr>table := set_entry (table tt) c i e\<rparr>)) c i = e"
      using get_set_entry_same[OF clen rlen] by simp
    have "entry_bound (generation8 tt) = BOUND_NONE"
      using low3_and3[OF g] by (simp add: entry_bound_def)
    moreover have "\<not> entry_is_pv (generation8 tt)"
      using low3_and4[OF g] by (simp add: entry_is_pv_def)
    ultimately have "key16 e = 0 \<and> entry_bound (genBound8 e) = BOUND_NONE \<and>
                   \<not> entry_is_pv (genBound8 e) \<and>
                   move16 e = 0 \<and> value16 e = 0 \<and> eval16 e = 0 \<and> depth8 e = 0"
      by (simp add: e_def zero_entry_def)
    with pr' get show ?thesis unfolding Let_def by (metis)
  qed
  from part1 part2 show ?thesis unfolding c_def by blast
qed

text \<open>The theorem on a cleared cluster: the probe hits entry 0, which nobody saved.\<close>

theorem probe_zero_signature_witness:
  "tt_wf demo_cleared \<and> key_signature demo_key0 = 0 \<and> 0 < ClusterSize \<and>
   get_entry (table demo_cleared) (first_entry demo_cleared demo_key0) 0 = zero_entry \<and>
   probe demo_cleared demo_key0 =
     Inr (demo_cleared\<lparr>table := [\<lparr>entry = [zero_entry\<lparr>genBound8 := 8\<rparr>, zero_entry, zero_entry],
                                   padding = [0, 0]\<rparr>]\<rparr>,
          True, EntryRef 0 0)"
proof -
  have h: "tt_wf demo_cleared" "key_signature demo_key0 = 0" "0 < ClusterSize"
    "get_entry (table demo_cleared) (first_entry demo_cleared demo_key0) 0 = zero_entry"
    by (simp_all add: demo_tables demo_eval)
  show ?thesis
    using h probe_zero_signature [OF h]
    by (simp add: demo_tables demo_eval)
qed

text \<open>
  The claim as worded asks for a pointer to the all-zero entry whenever the cluster
  contains one. After one \<open>save\<close> of \<open>demo_key0\<close> on the cleared cluster, entries 1 and 2 are
  still all-zero, yet the probe returns entry 0, which holds the move \<open>0x1234\<close> and an exact
  bound.
\<close>

theorem probe_zero_signature_not_empty_entry:
  "save (- 6) demo_cleared demo_key0 42 True BOUND_EXACT 10 0x1234 (- 5) = Inr demo_zsig \<and>
   key_signature demo_key0 = 0 \<and>
   get_entry (table demo_zsig) (first_entry demo_zsig demo_key0) 1 = zero_entry \<and>
   probe demo_zsig demo_key0 = Inr (demo_zsig, True, EntryRef 0 0) \<and>
   get_entry (table demo_zsig) 0 0 \<noteq> zero_entry \<and>
   move16 (get_entry (table demo_zsig) 0 0) = 0x1234 \<and>
   entry_bound (genBound8 (get_entry (table demo_zsig) 0 0)) = BOUND_EXACT"
  by (simp add: demo_tables demo_eval)

section \<open>The loop of hashfull\<close>

lemma occupied_spec: "occupied g e = spec_occupied g e"
  by (simp add: occupied_def spec_occupied_def entry_generation_def entry_bound_def)

lemma sum_of_bool_filter:
  "(\<Sum>x \<leftarrow> xs. of_bool (P x)) = int (length (filter P xs))"
  by (induction xs) simp_all

lemma map_nth_upt: "n \<le> length xs \<Longrightarrow> map (\<lambda>i. f (xs ! i)) [0..<n] = map f (take n xs)"
  by (rule nth_equalityI) auto

lemma hashfull_cluster_filter:
  "length (entry c) = ClusterSize \<Longrightarrow>
     hashfull_cluster g c = int (length (filter (spec_occupied g) (entry c)))"
proof -
  assume len: "length (entry c) = ClusterSize"
  have "hashfull_cluster g c =
      (\<Sum>x \<leftarrow> take ClusterSize (entry c). of_bool (spec_occupied g x))"
    unfolding hashfull_cluster_def occupied_spec
    using map_nth_upt[of ClusterSize "entry c" "\<lambda>e. of_bool (spec_occupied g e) :: int"] len
    by simp
  then show ?thesis using len by (simp add: sum_of_bool_filter)
qed

lemma length_filter_concat:
  "int (length (filter P (concat xss))) = (\<Sum>xs \<leftarrow> xss. int (length (filter P xs)))"
  by (induction xss) simp_all

lemma length_concat_clusters:
  "list_all cluster_ok cs \<Longrightarrow> length (concat (map entry cs)) = length cs * ClusterSize"
  by (induction cs) (simp_all add: cluster_ok_def)

lemma hashfull_sum:
  assumes "tt_shape tt" and "1000 \<le> clusterCount tt"
  shows "hashfull tt =
     Inr ((\<Sum>c \<leftarrow> take 1000 (table tt). hashfull_cluster (generation8 tt) c) div int ClusterSize)"
proof -
  have len: "1000 \<le> length (table tt)" using assms by (simp add: tt_shape_def)
  then have "\<not> length (table tt) < 1000" by simp
  moreover have "map (\<lambda>i. hashfull_cluster (generation8 tt) (table tt ! i)) [0..<1000] =
      map (hashfull_cluster (generation8 tt)) (take 1000 (table tt))"
    using len by (rule map_nth_upt)
  ultimately show ?thesis by (simp add: hashfull_def)
qed

lemma hashfull_eq_spec_range:
  assumes "tt_shape tt" and "1000 \<le> clusterCount tt"
  shows "hashfull tt = Inr (spec_hashfull tt) \<and> 0 \<le> spec_hashfull tt \<and> spec_hashfull tt \<le> 1000"
proof -
  define cs where "cs = take 1000 (table tt)"
  define g where "g = generation8 tt"
  have len: "length (table tt) = clusterCount tt" and ok: "list_all cluster_ok (table tt)"
    using assms(1) by (simp_all add: tt_shape_def)
  have ok_cs: "list_all cluster_ok cs"
    using ok unfolding cs_def list_all_iff by (meson in_set_takeD)
  have len_cs: "length cs = 1000" using len assms(2) by (simp add: cs_def)
  have "\<And>c. c \<in> set cs \<Longrightarrow>
      hashfull_cluster g c = int (length (filter (spec_occupied g) (entry c)))"
    using ok_cs by (simp add: list_all_iff cluster_ok_def hashfull_cluster_filter)
  then have m: "map (hashfull_cluster g) cs =
      map (\<lambda>c. int (length (filter (spec_occupied g) (entry c)))) cs"
    by (intro map_cong refl)
  have "(\<Sum>c \<leftarrow> cs. hashfull_cluster g c) =
      (\<Sum>c \<leftarrow> cs. int (length (filter (spec_occupied g) (entry c))))"
    by (simp only: m)
  also have "\<dots> = int (length (filter (spec_occupied g) (concat (map entry cs))))"
    by (simp add: length_filter_concat comp_def)
  finally have eq: "hashfull tt = Inr (spec_hashfull tt)"
    using hashfull_sum[OF assms] by (simp add: spec_hashfull_def cs_def g_def)
  define n where "n = length (filter (spec_occupied g) (concat (map entry cs)))"
  have "n \<le> length (concat (map entry cs))"
    unfolding n_def by (rule length_filter_le)
  also have "\<dots> = 1000 * ClusterSize"
    using length_concat_clusters[OF ok_cs] len_cs by simp
  finally have "int n \<le> 1000 * int ClusterSize" by simp
  then have "int n div int ClusterSize \<le> (1000 * int ClusterSize) div int ClusterSize"
    using ClusterSize_pos by (intro zdiv_mono1) simp_all
  also have "\<dots> = 1000" using ClusterSize_pos by simp
  finally have "spec_hashfull tt \<le> 1000"
    by (simp add: spec_hashfull_def cs_def g_def n_def)
  moreover have "0 \<le> spec_hashfull tt"
    unfolding spec_hashfull_def by (simp add: pos_imp_zdiv_nonneg_iff ClusterSize_pos)
  ultimately show ?thesis using eq by simp
qed

lemma hashfull_eq_spec:
  "tt_shape tt \<Longrightarrow> 1000 \<le> clusterCount tt \<Longrightarrow> hashfull tt = Inr (spec_hashfull tt)"
  using hashfull_eq_spec_range by blast

lemma length_filter_concat_replicate:
  "length (filter P (concat (replicate n xs))) = n * length (filter P xs)"
  by (induction n) simp_all

lemma list_all_replicate: "P x \<Longrightarrow> list_all P (replicate n x)"
  by (simp add: list_all_iff)

section \<open>clear, resize and hashfull\<close>

lemma run_threads_append:
  "run_threads f (xs @ ys) tbl =
     (case run_threads f xs tbl of Inl err \<Rightarrow> Inl err | Inr tbl' \<Rightarrow> run_threads f ys tbl')"
  by (induction xs arbitrary: tbl) (auto split: sum.splits)

lemma stride_mult_le: "k \<le> T \<Longrightarrow> cc div T * k \<le> (cc :: nat)"
proof -
  assume "k \<le> T"
  then have "cc div T * k \<le> cc div T * T" by simp
  also have "\<dots> \<le> cc" by simp
  finally show ?thesis .
qed

lemma clear_prefix:
  assumes "length tbl = cc"
  shows "k < T \<Longrightarrow>
     run_threads (clear_thread T cc) [0..<k] tbl =
       Inr (replicate (cc div T * k) zero_cluster @ drop (cc div T * k) tbl)"
proof (induction k)
  case 0
  then show ?case by simp
next
  case (Suc k)
  define s where "s = cc div T"
  have k: "k < T" "k \<noteq> T - 1" using Suc.prems by auto
  have le: "s * k + s \<le> cc"
    using stride_mult_le[of "Suc k" T cc] Suc.prems by (simp add: s_def)
  define tbl' where "tbl' = replicate (s * k) zero_cluster @ drop (s * k) tbl"
  have len': "length tbl' = cc" using le assms by (simp add: tbl'_def)
  have step: "clear_thread T cc k tbl' =
      Inr (replicate (s * Suc k) zero_cluster @ drop (s * Suc k) tbl)"
  proof -
    have "clear_thread T cc k tbl' = memset_zero tbl' (s * k) s"
      using k(2) by (simp add: clear_thread_def thread_range_def Let_def s_def)
    also have "\<dots> = Inr (take (s * k) tbl' @ replicate s zero_cluster @ drop (s * k + s) tbl')"
      using le len' by (simp add: memset_zero_def)
    also have "take (s * k) tbl' = replicate (s * k) zero_cluster"
      by (simp add: tbl'_def)
    also have "drop (s * k + s) tbl' = drop (s * Suc k) tbl"
      by (simp add: tbl'_def add.commute)
    finally show ?thesis by (simp add: replicate_add[symmetric] del: replicate_add)
  qed
  have "run_threads (clear_thread T cc) [0..<Suc k] tbl =
      (case run_threads (clear_thread T cc) [0..<k] tbl of
         Inl err \<Rightarrow> Inl err | Inr t \<Rightarrow> run_threads (clear_thread T cc) [k] t)"
    by (simp add: run_threads_append)
  also have "\<dots> = clear_thread T cc k tbl'"
    using Suc.IH[OF k(1)] by (simp add: tbl'_def s_def split: sum.splits)
  finally show ?case using step by (simp add: s_def)
qed

lemma clear_all:
  assumes "length tbl = cc" and "1 \<le> T"
  shows "run_threads (clear_thread T cc) [0..<T] tbl = Inr (replicate cc zero_cluster)"
proof -
  define s where "s = cc div T"
  define k where "k = T - 1"
  have T: "T = Suc k" using assms(2) by (simp add: k_def)
  have le: "s * k \<le> cc" using stride_mult_le[of k T cc] by (simp add: s_def k_def)
  define tbl' where "tbl' = replicate (s * k) zero_cluster @ drop (s * k) tbl"
  have len': "length tbl' = cc" using le assms(1) by (simp add: tbl'_def)
  have "clear_thread T cc k tbl' = memset_zero tbl' (s * k) (cc - s * k)"
    by (simp add: clear_thread_def thread_range_def Let_def s_def k_def)
  also have "\<dots> = Inr (take (s * k) tbl' @ replicate (cc - s * k) zero_cluster @ drop cc tbl')"
    using le len' by (simp add: memset_zero_def)
  also have "take (s * k) tbl' = replicate (s * k) zero_cluster"
    by (simp add: tbl'_def)
  also have "drop cc tbl' = []" using len' by simp
  finally have step: "clear_thread T cc k tbl' = Inr (replicate cc zero_cluster)"
    using le by (simp add: replicate_add[symmetric] del: replicate_add)
  have "run_threads (clear_thread T cc) [0..<T] tbl =
      (case run_threads (clear_thread T cc) [0..<k] tbl of
         Inl err \<Rightarrow> Inl err | Inr t \<Rightarrow> run_threads (clear_thread T cc) [k] t)"
    unfolding T by (simp add: run_threads_append)
  also have "\<dots> = clear_thread T cc k tbl'"
    using clear_prefix[OF assms(1), of k T] T
    by (simp add: tbl'_def s_def split: sum.splits)
  finally show ?thesis using step by simp
qed

lemma clear_eq:
  "length (table tt) = clusterCount tt \<Longrightarrow> 1 \<le> T \<Longrightarrow>
     clear T tt = Inr (tt\<lparr>table := replicate (clusterCount tt) zero_cluster\<rparr>)"
  by (simp add: clear_def clear_all)

lemma clear_no_threads: "clear 0 tt = Inr tt"
  by (simp add: clear_def)

lemma cluster_count_of_eq: "cluster_count_of mbSize = 32768 * (unat mbSize mod 2 ^ 44)"
proof -
  have "mbSize * 1024 * 1024 = mbSize * 1048576" by simp
  then have "unat (mbSize * 1024 * 1024) = (unat mbSize * 1048576) mod 2 ^ 64"
    by (simp add: unat_word_ariths mult.commute)
  also have "\<dots> = (unat mbSize * 2 ^ 20) mod (2 ^ 44 * 2 ^ 20)" by simp
  also have "\<dots> = (unat mbSize mod 2 ^ 44) * 2 ^ 20" by (simp only: mult_mod_left)
  finally have "unat (mbSize * 1024 * 1024) = (unat mbSize mod 2 ^ 44) * (32768 * 32)"
    by simp
  then show ?thesis by (simp add: cluster_count_of_def sizeof_Cluster_def)
qed

lemma cluster_count_of_nonzero: "cluster_count_of mbSize \<noteq> 0 \<Longrightarrow> 1000 \<le> cluster_count_of mbSize"
  unfolding cluster_count_of_eq by (cases "unat mbSize mod 2 ^ 44") simp_all

lemma cluster_bytes_zero: "cluster_bytes zero_cluster = replicate sizeof_Cluster 0"
  by (simp add: cluster_bytes_def zero_cluster_eq zero_entry_def entry_bytes_def bytes16_def
      sizeof_Cluster_def eval_nat_numeral)

lemma is_empty_zero_cluster: "e \<in> set (entry zero_cluster) \<Longrightarrow> is_empty e"
  by (auto simp: zero_cluster_def is_empty_def zero_entry_def)

lemma tt_shape_zero:
  "tt_shape \<lparr>clusterCount = n, table = replicate n zero_cluster, generation8 = g\<rparr>"
  by (simp add: tt_shape_def list_all_replicate cluster_ok_def zero_cluster_def)

lemma spec_hashfull_zero:
  "spec_hashfull \<lparr>clusterCount = n, table = replicate n zero_cluster, generation8 = g\<rparr> = 0"
proof -
  have "filter (spec_occupied g) (entry zero_cluster) = []"
    by (simp add: zero_cluster_def spec_occupied_def zero_entry_def entry_bound_def)
  then show ?thesis
    by (simp add: spec_hashfull_def length_filter_concat_replicate)
qed

lemma thread_ranges_cover:
  assumes "1 \<le> T"
  shows "fst (thread_range T cc 0) = 0"
    and "\<forall>idx<T. fst (thread_range T cc idx) + snd (thread_range T cc idx) =
           (if Suc idx = T then cc else fst (thread_range T cc (Suc idx)))"
    and "\<forall>idx. Suc idx < T \<longrightarrow> snd (thread_range T cc idx) = cc div T"
    and "snd (thread_range T cc (T - 1)) = cc div T + cc mod T"
proof -
  show "fst (thread_range T cc 0) = 0" by (simp add: thread_range_def)
  have le: "cc div T * (T - 1) \<le> cc" by (rule stride_mult_le) simp
  show "\<forall>idx<T. fst (thread_range T cc idx) + snd (thread_range T cc idx) =
           (if Suc idx = T then cc else fst (thread_range T cc (Suc idx)))"
  proof (intro allI impI)
    fix idx assume "idx < T"
    show "fst (thread_range T cc idx) + snd (thread_range T cc idx) =
           (if Suc idx = T then cc else fst (thread_range T cc (Suc idx)))"
    proof (cases "Suc idx = T")
      case True
      then have "idx = T - 1" by simp
      with le True show ?thesis by (simp add: thread_range_def Let_def)
    next
      case False
      with \<open>idx < T\<close> have "idx \<noteq> T - 1" by auto
      with False show ?thesis by (simp add: thread_range_def Let_def)
    qed
  qed
  show "\<forall>idx. Suc idx < T \<longrightarrow> snd (thread_range T cc idx) = cc div T"
  proof (intro allI impI)
    fix idx assume "Suc idx < T"
    then have "idx \<noteq> T - 1" by simp
    then show "snd (thread_range T cc idx) = cc div T"
      by (simp add: thread_range_def Let_def)
  qed
  obtain k where T: "T = Suc k" using assms by (cases T) simp_all
  have "cc = cc div T * T + cc mod T" by simp
  also have "cc div T * T = cc div T * (T - 1) + cc div T"
    unfolding T by simp
  finally have "cc - cc div T * (T - 1) = cc div T + cc mod T" by simp
  then show "snd (thread_range T cc (T - 1)) = cc div T + cc mod T"
    by (simp add: thread_range_def Let_def)
qed

lemma resize_eq:
  assumes "1 \<le> T" and "length region = cluster_count_of mbSize"
  shows "resize mbSize T (Some region) tt =
     Inr (tt\<lparr>clusterCount := cluster_count_of mbSize,
             table := replicate (cluster_count_of mbSize) zero_cluster\<rparr>)"
  using assms by (simp add: resize_def Let_def clear_eq)

lemma cluster_count_of_1: "cluster_count_of 1 = 32768"
  by (simp add: cluster_count_of_def sizeof_Cluster_def)

subsection \<open>Occupancy\<close>

text \<open>
  Claim C6, as the code has it. On a table that holds its clusters, at least 1000 of
  them, \<open>hashfull\<close> returns the number of entries of the first 1000 clusters whose
  generation bits equal the current generation and whose bound bits are not \<open>NONE\<close>,
  divided by \<open>ClusterSize\<close>, and the result lies between 0 and 1000 whatever the entries
  hold. (The loop reads clusters 0 to 999 unconditionally; every table with a cluster that
  \<open>resize\<close> builds has at least 32768.)
\<close>

theorem hashfull_permille:
  assumes "tt_shape tt" and "1000 \<le> clusterCount tt"
  shows "hashfull tt = Inr (spec_hashfull tt) \<and> 0 \<le> spec_hashfull tt \<and> spec_hashfull tt \<le> 1000"
  using hashfull_eq_spec_range [OF assms] .

text \<open>The theorem on 1000 clusters with one current entry each: 1000 div 3.\<close>

theorem hashfull_permille_witness:
  "tt_shape demo_sample \<and> 1000 \<le> clusterCount demo_sample \<and>
   hashfull demo_sample = Inr 333 \<and> spec_hashfull demo_sample = 333"
proof -
  have h: "tt_shape demo_sample" "1000 \<le> clusterCount demo_sample"
    by (simp_all add: demo_sample_def demo_third_def tt_shape_def list_all_replicate
        cluster_ok_def ClusterSize_def)
  have "spec_hashfull demo_sample = 333"
    by (simp add: spec_hashfull_def demo_sample_def length_filter_concat_replicate
        demo_third_def spec_occupied_def demo_entry_def gen_bound_byte_def zero_entry_def
        entry_generation_def entry_bound_def ClusterSize_def)
  then show ?thesis
    using h hashfull_permille [OF h] by simp
qed

text \<open>
  The claim as worded speaks of every table state. Before the first \<open>resize\<close>, and after
  \<open>resize(0)\<close>, the table has no clusters, and there the loop of \<open>hashfull\<close> reads cluster 0
  outside the table: no result in the range 0 to 1000 comes back.
\<close>

theorem hashfull_out_of_range:
  "hashfull TT_initial = Inl OutOfBounds \<and>
   length ([] :: Cluster list) = cluster_count_of 0 \<and>
   resize 0 1 (Some []) demo_full = Inr demo_empty \<and>
   hashfull demo_empty = Inl OutOfBounds"
proof -
  have c: "cluster_count_of 0 = 0" by (simp add: cluster_count_of_def)
  have "resize 0 1 (Some []) demo_full = Inr demo_empty"
    using resize_eq[of 1 "[]" 0 demo_full] by (simp add: c demo_empty_def demo_full_def)
  then show ?thesis by (simp add: c hashfull_def demo_empty_def TT_initial_def)
qed

subsection \<open>Clearing\<close>

text \<open>
  Claim C8, as the code has it. For every thread count \<open>T \<ge> 1\<close>, when the allocator hands
  \<open>resize\<close> the region it asked for, \<open>resize\<close> followed by \<open>clear\<close> succeeds and leaves a
  table of \<open>clusterCount\<close> clusters in which all 32 bytes of every cluster are 0 and every
  entry is empty; \<open>clear\<close> gives that same table whatever the clusters held before. The
  ranges of the \<open>T\<close> threads start at cluster 0, each ends where the next begins, the last
  ends at \<open>clusterCount\<close>; all but the last hold \<open>clusterCount div T\<close> clusters and the last
  holds the remainder as well. When the table has any cluster at all it has at least
  1000, and \<open>hashfull\<close> returns 0.
\<close>

theorem resize_clear_all_zero:
  assumes "1 \<le> T" and "length region = cluster_count_of mbSize"
  shows "\<exists>tt1 tt2. resize mbSize T (Some region) tt = Inr tt1 \<and> clear T tt1 = Inr tt2 \<and>
     clusterCount tt2 = cluster_count_of mbSize \<and>
     length (table tt2) = clusterCount tt2 \<and>
     (\<forall>tbl. length tbl = clusterCount tt2 \<longrightarrow> clear T (tt2\<lparr>table := tbl\<rparr>) = Inr tt2) \<and>
     (\<forall>c \<in> set (table tt2). cluster_bytes c = replicate sizeof_Cluster 0) \<and>
     (\<forall>c \<in> set (table tt2). \<forall>e \<in> set (entry c). is_empty e) \<and>
     (let cc = clusterCount tt2
      in fst (thread_range T cc 0) = 0 \<and>
         (\<forall>idx<T. fst (thread_range T cc idx) + snd (thread_range T cc idx) =
            (if Suc idx = T then cc else fst (thread_range T cc (Suc idx)))) \<and>
         (\<forall>idx. Suc idx < T \<longrightarrow> snd (thread_range T cc idx) = cc div T) \<and>
         snd (thread_range T cc (T - 1)) = cc div T + cc mod T) \<and>
     (clusterCount tt2 \<noteq> 0 \<longrightarrow> 1000 \<le> clusterCount tt2 \<and> hashfull tt2 = Inr 0)"
proof -
  define cc where "cc = cluster_count_of mbSize"
  define tt1 where "tt1 = tt\<lparr>clusterCount := cc, table := replicate cc zero_cluster\<rparr>"
  have r: "resize mbSize T (Some region) tt = Inr tt1"
    using resize_eq[OF assms] by (simp add: tt1_def cc_def)
  have c: "clear T tt1 = Inr tt1"
    using clear_eq[of tt1 T] assms(1) by (simp add: tt1_def)
  have eq: "tt1 = \<lparr>clusterCount = cc, table = replicate cc zero_cluster,
      generation8 = generation8 tt\<rparr>"
    by (simp add: tt1_def)
  have a: "clusterCount tt1 = cc" "length (table tt1) = clusterCount tt1"
    by (simp_all add: tt1_def)
  have any: "\<forall>tbl. length tbl = clusterCount tt1 \<longrightarrow> clear T (tt1\<lparr>table := tbl\<rparr>) = Inr tt1"
  proof (intro allI impI)
    fix tbl :: "Cluster list"
    assume "length tbl = clusterCount tt1"
    then show "clear T (tt1\<lparr>table := tbl\<rparr>) = Inr tt1"
      using clear_eq[of "tt1\<lparr>table := tbl\<rparr>" T] assms(1) by (simp add: tt1_def)
  qed
  have b: "\<forall>c \<in> set (table tt1). cluster_bytes c = replicate sizeof_Cluster 0"
    by (simp add: tt1_def cluster_bytes_zero)
  have e: "\<forall>c \<in> set (table tt1). \<forall>e \<in> set (entry c). is_empty e"
    using is_empty_zero_cluster by (simp add: tt1_def)
  have h: "1000 \<le> clusterCount tt1 \<and> hashfull tt1 = Inr 0" if "clusterCount tt1 \<noteq> 0"
  proof -
    have big: "1000 \<le> clusterCount tt1"
      using that cluster_count_of_nonzero[of mbSize] by (simp add: a cc_def)
    have "tt_shape tt1" unfolding eq by (rule tt_shape_zero)
    from hashfull_eq_spec[OF this big] big show ?thesis
      by (simp add: eq spec_hashfull_zero)
  qed
  note cover = thread_ranges_cover[OF assms(1), of cc]
  show ?thesis
    unfolding Let_def cc_def[symmetric]
  proof (intro exI conjI)
    show "resize mbSize T (Some region) tt = Inr tt1" by (rule r)
    show "clear T tt1 = Inr tt1" by (rule c)
    show "clusterCount tt1 = cc" by (rule a(1))
    show "length (table tt1) = clusterCount tt1" by (rule a(2))
    show "\<forall>tbl. length tbl = clusterCount tt1 \<longrightarrow> clear T (tt1\<lparr>table := tbl\<rparr>) = Inr tt1"
      by (rule any)
    show "\<forall>c \<in> set (table tt1). cluster_bytes c = replicate sizeof_Cluster 0" by (rule b)
    show "\<forall>c \<in> set (table tt1). \<forall>e \<in> set (entry c). is_empty e" by (rule e)
    show "fst (thread_range T (clusterCount tt1) 0) = 0"
      unfolding a(1) by (rule cover(1))
    show "\<forall>idx<T. fst (thread_range T (clusterCount tt1) idx)
            + snd (thread_range T (clusterCount tt1) idx) =
            (if Suc idx = T then clusterCount tt1
             else fst (thread_range T (clusterCount tt1) (Suc idx)))"
      unfolding a(1) by (rule cover(2))
    show "\<forall>idx. Suc idx < T \<longrightarrow>
            snd (thread_range T (clusterCount tt1) idx) = clusterCount tt1 div T"
      unfolding a(1) by (rule cover(3))
    show "snd (thread_range T (clusterCount tt1) (T - 1)) =
            clusterCount tt1 div T + clusterCount tt1 mod T"
      unfolding a(1) by (rule cover(4))
    show "clusterCount tt1 \<noteq> 0 \<longrightarrow> 1000 \<le> clusterCount tt1 \<and> hashfull tt1 = Inr 0"
      using h by blast
  qed
qed

text \<open>
  The theorem for \<open>resize(1)\<close> with three threads: 32768 clusters, cleared in the ranges
  \<open>[0, 10922)\<close>, \<open>[10922, 21844)\<close> and \<open>[21844, 32768)\<close>.
\<close>

theorem resize_clear_all_zero_witness:
  "(1::nat) \<le> 3 \<and> length demo_region = cluster_count_of 1 \<and>
   resize 1 3 (Some demo_region) demo_full =
     Inr \<lparr>clusterCount = 32768, table = replicate 32768 zero_cluster, generation8 = 8\<rparr> \<and>
   clear 3 \<lparr>clusterCount = 32768, table = replicate 32768 zero_cluster, generation8 = 8\<rparr> =
     Inr \<lparr>clusterCount = 32768, table = replicate 32768 zero_cluster, generation8 = 8\<rparr> \<and>
   thread_range 3 32768 0 = (0, 10922) \<and>
   thread_range 3 32768 1 = (10922, 10922) \<and>
   thread_range 3 32768 2 = (21844, 10924) \<and>
   hashfull \<lparr>clusterCount = 32768, table = replicate 32768 zero_cluster, generation8 = 8\<rparr>
     = Inr 0"
proof -
  have h: "(1::nat) \<le> 3" "length demo_region = cluster_count_of 1"
    by (simp_all add: demo_region_def cluster_count_of_1)
  have r: "resize 1 3 (Some demo_region) demo_full =
     Inr \<lparr>clusterCount = 32768, table = replicate 32768 zero_cluster, generation8 = 8\<rparr>"
    using resize_eq[OF h, of demo_full] by (simp add: cluster_count_of_1 demo_full_def)
  have c: "clear 3 \<lparr>clusterCount = 32768, table = replicate 32768 zero_cluster,
        generation8 = 8\<rparr> =
     Inr \<lparr>clusterCount = 32768, table = replicate 32768 zero_cluster, generation8 = 8\<rparr>"
    by (simp add: clear_eq)
  have t: "thread_range 3 32768 0 = (0, 10922)" "thread_range 3 32768 1 = (10922, 10922)"
    "thread_range 3 32768 2 = (21844, 10924)"
    by (simp_all add: thread_range_def Let_def)
  show ?thesis
    using h r c t resize_clear_all_zero [OF h, of demo_full]
    by simp
qed

text \<open>
  The claim as worded has \<open>hashfull\<close> return 0 after every \<open>resize(m)\<close> and \<open>clear\<close>. For
  \<open>m = 0\<close> the table has no cluster, \<open>clear\<close> with three threads has nothing to zero, and
  \<open>hashfull\<close> reads outside the table.
\<close>

theorem resize_zero_hashfull:
  "(1::nat) \<le> 3 \<and> length ([] :: Cluster list) = cluster_count_of 0 \<and>
   resize 0 3 (Some []) demo_full = Inr demo_empty \<and>
   clear 3 demo_empty = Inr demo_empty \<and>
   hashfull demo_empty = Inl OutOfBounds"
proof -
  have c: "cluster_count_of 0 = 0" by (simp add: cluster_count_of_def)
  have "resize 0 3 (Some []) demo_full = Inr demo_empty"
    using resize_eq[of 3 "[]" 0 demo_full] by (simp add: c demo_empty_def demo_full_def)
  moreover have "clear 3 demo_empty = Inr demo_empty"
    using clear_eq[of demo_empty 3] by (simp add: demo_empty_def)
  ultimately show ?thesis by (simp add: c hashfull_def demo_empty_def)
qed

section \<open>Failure\<close>

lemma run_threads_failure:
  "run_threads (clear_thread T cc) idxs tbl = Inl err \<Longrightarrow> err = OutOfBounds"
proof (induction idxs arbitrary: tbl)
  case Nil
  then show ?case by simp
next
  case (Cons idx rest)
  show ?case
  proof (cases "clear_thread T cc idx tbl")
    case (Inl e)
    then have "e = OutOfBounds"
      by (auto simp: clear_thread_def memset_zero_def split: prod.splits if_splits)
    with Inl Cons.prems show ?thesis by simp
  next
    case (Inr tbl')
    with Cons.prems have "run_threads (clear_thread T cc) rest tbl' = Inl err" by simp
    then show ?thesis by (rule Cons.IH)
  qed
qed

lemma clear_failure: "clear T tt = Inl err \<Longrightarrow> err = OutOfBounds"
  by (auto simp: clear_def split: sum.splits dest: run_threads_failure)

lemma clear_total: "length (table tt) = clusterCount tt \<Longrightarrow> \<exists>tt'. clear T tt = Inr tt'"
  by (cases T) (simp_all add: clear_no_threads clear_eq)

text \<open>
  Claim C7, as the code has it. \<open>resize\<close> ends the process exactly when the allocator
  returns null: it then writes \<open>Failed to allocate <mbSize>MB for transposition table.\<close>
  and a newline to the standard error stream and exits with \<open>EXIT_FAILURE\<close>, which is not
  0, without a second attempt and without a table; when the allocator hands over the
  region, \<open>resize\<close> returns. \<open>probe\<close>, \<open>save\<close>, \<open>clear\<close> and \<open>hashfull\<close> never end the
  process, and they return normally on a table that holds its clusters (at least one for
  \<open>probe\<close> and \<open>save\<close>, at least 1000 for \<open>hashfull\<close>).
\<close>

theorem only_resize_exits:
  "resize mbSize T None tt = Inl (Exit EXIT_FAILURE (alloc_failure_message mbSize)) \<and>
   EXIT_FAILURE \<noteq> 0 \<and>
   alloc_failure_message mbSize =
     ''Failed to allocate '' @ decimal (unat mbSize) @ ''MB for transposition table.''
       @ [CHR 0x0A] \<and>
   (\<forall>region. length region = cluster_count_of mbSize \<longrightarrow>
      (\<exists>tt'. resize mbSize T (Some region) tt = Inr tt')) \<and>
   (\<forall>mem c s. resize mbSize T mem tt = Inl (Exit c s) \<longrightarrow> mem = None) \<and>
   (tt_shape tt \<longrightarrow> (\<exists>tt'. clear T tt = Inr tt')) \<and>
   (tt_shape tt \<and> 0 < clusterCount tt \<longrightarrow>
      (\<exists>tt' found p. probe tt key = Inr (tt', found, p)) \<and>
      (\<exists>tt'. save off tt k v pv b d m ev = Inr tt')) \<and>
   (tt_shape tt \<and> 1000 \<le> clusterCount tt \<longrightarrow>
      (\<exists>n. hashfull tt = Inr n \<and> 0 \<le> n \<and> n \<le> 1000)) \<and>
   (\<forall>c s. probe tt key \<noteq> Inl (Exit c s) \<and> save off tt k v pv b d m ev \<noteq> Inl (Exit c s) \<and>
      clear T tt \<noteq> Inl (Exit c s) \<and> hashfull tt \<noteq> Inl (Exit c s))"
proof (intro conjI)
  show "resize mbSize T None tt = Inl (Exit EXIT_FAILURE (alloc_failure_message mbSize))"
    by (simp add: resize_def)
  show "EXIT_FAILURE \<noteq> 0" by (simp add: EXIT_FAILURE_def)
  show "alloc_failure_message mbSize =
     ''Failed to allocate '' @ decimal (unat mbSize) @ ''MB for transposition table.''
       @ [CHR 0x0A]"
    by (simp add: alloc_failure_message_def)
  show "\<forall>region. length region = cluster_count_of mbSize \<longrightarrow>
      (\<exists>tt'. resize mbSize T (Some region) tt = Inr tt')"
    using clear_total[of "tt\<lparr>clusterCount := cluster_count_of mbSize, table := r\<rparr>" T for r]
    by (simp add: resize_def Let_def)
  show "\<forall>mem c s. resize mbSize T mem tt = Inl (Exit c s) \<longrightarrow> mem = None"
  proof (intro allI impI)
    fix mem c s assume a: "resize mbSize T mem tt = Inl (Exit c s)"
    show "mem = None"
    proof (cases mem)
      case None then show ?thesis .
    next
      case (Some region)
      with a have "clear T (tt\<lparr>clusterCount := cluster_count_of mbSize, table := region\<rparr>)
          = Inl (Exit c s)"
        by (simp add: resize_def Let_def)
      from clear_failure[OF this] show ?thesis by simp
    qed
  qed
  show "tt_shape tt \<longrightarrow> (\<exists>tt'. clear T tt = Inr tt')"
    using clear_total[of tt T] by (simp add: tt_shape_def)
  show "tt_shape tt \<and> 0 < clusterCount tt \<longrightarrow>
      (\<exists>tt' found p. probe tt key = Inr (tt', found, p)) \<and>
      (\<exists>tt'. save off tt k v pv b d m ev = Inr tt')"
  proof
    assume wf: "tt_shape tt \<and> 0 < clusterCount tt"
    then have lt: "first_entry tt key < length (table tt)" "first_entry tt k < length (table tt)"
      using first_entry_less[of tt] by (simp_all add: tt_shape_def)
    have p: "\<exists>tt' found p. probe tt key = Inr (tt', found, p)"
      using lt(1) by (auto simp: probe_def Let_def split: option.splits)
    obtain r where "select_victim (generation8 tt) (entry (table tt ! first_entry tt k))
        (key_signature k) = Some r"
      using select_victim_Some by blast
    then have "\<exists>tt'. save off tt k v pv b d m ev = Inr tt'"
      using lt(2) by (simp add: save_def Let_def)
    with p show "(\<exists>tt' found p. probe tt key = Inr (tt', found, p)) \<and>
      (\<exists>tt'. save off tt k v pv b d m ev = Inr tt')" by blast
  qed
  show "tt_shape tt \<and> 1000 \<le> clusterCount tt \<longrightarrow>
      (\<exists>n. hashfull tt = Inr n \<and> 0 \<le> n \<and> n \<le> 1000)"
    using hashfull_eq_spec_range[of tt] by blast
  show "\<forall>c s. probe tt key \<noteq> Inl (Exit c s) \<and> save off tt k v pv b d m ev \<noteq> Inl (Exit c s) \<and>
      clear T tt \<noteq> Inl (Exit c s) \<and> hashfull tt \<noteq> Inl (Exit c s)"
  proof (intro allI conjI)
    fix c s
    show "probe tt key \<noteq> Inl (Exit c s)"
      by (simp add: probe_def Let_def split: option.splits)
    show "save off tt k v pv b d m ev \<noteq> Inl (Exit c s)"
      by (simp add: save_def Let_def split: option.splits)
    show "clear T tt \<noteq> Inl (Exit c s)"
      using clear_failure[of T tt "Exit c s"] by auto
    show "hashfull tt \<noteq> Inl (Exit c s)"
      by (simp add: hashfull_def)
  qed
qed

text \<open>
  The theorem for a failed \<open>resize(16)\<close>, and for \<open>hashfull\<close> and \<open>probe\<close> on the table of
  1000 clusters.
\<close>

theorem only_resize_exits_witness:
  "resize 16 1 None demo_sample =
     Inl (Exit 1 (''Failed to allocate 16MB for transposition table.'' @ [CHR 0x0A])) \<and>
   tt_shape demo_sample \<and> 1000 \<le> clusterCount demo_sample \<and>
   hashfull demo_sample = Inr 333 \<and>
   probe demo_sample demo_key = Inr (demo_sample, False, nullptr)"
proof -
  have m: "alloc_failure_message 16 = ''Failed to allocate 16MB for transposition table.''
      @ [CHR 0x0A]"
    by (simp add: alloc_failure_message_def decimal.simps digit_char_def)
  have h: "tt_shape demo_sample" "1000 \<le> clusterCount demo_sample"
    by (simp_all add: demo_sample_def demo_third_def tt_shape_def list_all_replicate
        cluster_ok_def ClusterSize_def)
  have s: "spec_hashfull demo_sample = 333"
    by (simp add: spec_hashfull_def demo_sample_def length_filter_concat_replicate
        demo_third_def spec_occupied_def demo_entry_def gen_bound_byte_def zero_entry_def
        entry_generation_def entry_bound_def ClusterSize_def)
  have fe: "first_entry demo_sample demo_key = 869"
    by (simp add: first_entry_def demo_sample_def demo_key_def)
  have p: "probe demo_sample demo_key = Inr (demo_sample, False, nullptr)"
    by (simp add: probe_def fe Let_def)
       (simp add: demo_sample_def demo_third_def demo_entry_def zero_entry_def
          key_signature_def demo_key_def scan_key.simps ClusterSize_def)
  show ?thesis
    using only_resize_exits [where mbSize = 16 and T = 1 and tt = demo_sample
        and key = demo_key]
      m h s p hashfull_eq_spec [OF h]
    by (simp add: EXIT_FAILURE_def)
qed

text \<open>
  The claim as worded has \<open>probe\<close>, \<open>save\<close> and \<open>hashfull\<close> never fail. On the table
  object before the first \<open>resize\<close> each of the three accesses memory outside the table.
  So they do after \<open>resize\<close> with \<open>mbSize = 2^44\<close>, where the product
  \<open>mbSize * 1024 * 1024\<close> wraps to 0 and the table has no clusters.
\<close>

theorem out_of_range_on_empty_table:
  "probe TT_initial demo_key = Inl OutOfBounds \<and>
   save (- 6) TT_initial demo_key 42 True BOUND_EXACT 10 0x1234 (- 5) = Inl OutOfBounds \<and>
   hashfull TT_initial = Inl OutOfBounds \<and>
   cluster_count_of 0x100000000000 = 0 \<and>
   resize 0x100000000000 1 (Some []) demo_full = Inr demo_empty \<and>
   probe demo_empty demo_key = Inl OutOfBounds \<and>
   save (- 6) demo_empty demo_key 42 True BOUND_EXACT 10 0x1234 (- 5) = Inl OutOfBounds \<and>
   hashfull demo_empty = Inl OutOfBounds"
proof -
  have c: "cluster_count_of 0x100000000000 = 0" by (simp add: cluster_count_of_def)
  have "resize 0x100000000000 1 (Some []) demo_full = Inr demo_empty"
    using resize_eq[of 1 "[]" "0x100000000000" demo_full]
    by (simp add: c demo_empty_def demo_full_def)
  then show ?thesis
    by (simp add: c hashfull_def probe_def save_def Let_def demo_empty_def TT_initial_def)
qed

section \<open>The invariant\<close>

text \<open>
  \<open>tt_wf\<close> is established by \<open>resize\<close> whenever the table has a cluster, and kept by
  \<open>new_search\<close>, \<open>save\<close> and \<open>probe\<close>.
\<close>

lemma and7_take_bit: "(g :: 8 word) AND 0x7 = take_bit 3 g"
  by (simp add: take_bit_eq_mask mask_eq_exp_minus_1)

lemma take_bit3_add8: "take_bit 3 ((g::8 word) + 8) = take_bit 3 g"
proof -
  have "unat (take_bit 3 (g + 8)) = take_bit 3 (unat (g + 8))"
    by (simp add: unsigned_take_bit_eq)
  also have "\<dots> = (unat g + 8) mod 256 mod 8"
    by (simp add: take_bit_eq_mod unat_word_ariths)
  also have "\<dots> = (unat g + 8) mod 8"
    by (rule mod_mod_cancel) simp
  also have "\<dots> = unat g mod 8" by simp
  finally have l: "unat (take_bit 3 (g + 8)) = unat g mod 8" .
  have "unat (take_bit 3 g) = take_bit 3 (unat g)"
    by (simp add: unsigned_take_bit_eq)
  also have "\<dots> = unat g mod 8" by (simp add: take_bit_eq_mod)
  finally show ?thesis using l by (simp only: word_unat_eq_iff)
qed

lemma new_search_low_bits:
  "generation8 tt AND 0x7 = 0 \<Longrightarrow> generation8 (new_search tt) AND 0x7 = 0"
  by (simp add: new_search_def and7_take_bit take_bit3_add8)

lemma new_search_wf: "tt_wf tt \<Longrightarrow> tt_wf (new_search tt)"
  using new_search_low_bits[of tt] by (simp add: tt_wf_def tt_shape_def new_search_def)

lemma new_search_keeps_entries: "table (new_search tt) = table tt"
  by (simp add: new_search_def)

lemma save_wf:
  assumes "tt_wf tt" and "save off tt k v pv b d m ev = Inr tt'"
  shows "tt_wf tt'"
proof -
  have sh: "tt_shape tt" and pos: "0 < clusterCount tt"
    using assms(1) by (simp_all add: tt_wf_def)
  obtain r where "select_victim (generation8 tt) (entry (table tt ! first_entry tt k))
      (key_signature k) = Some r"
    using select_victim_Some by blast
  from save_eq[OF sh pos this, of off v pv b d m ev] assms(2)
  have "tt' = tt\<lparr>table := set_entry (table tt) (first_entry tt k) r
            (write_entry off (generation8 tt) (get_entry (table tt) (first_entry tt k) r)
               (key_signature k) v pv b d m ev)\<rparr>" by simp
  then show ?thesis
    using assms(1) by (simp add: tt_wf_def tt_shape_def cluster_ok_set_entry)
qed

lemma probe_wf:
  assumes "tt_wf tt" and "probe tt key = Inr (tt', found, p)"
  shows "tt_wf tt'"
proof -
  have lt: "first_entry tt key < length (table tt)"
    using assms(1) first_entry_less[of tt key] by (simp add: tt_wf_def tt_shape_def)
  show ?thesis
    using assms lt
    by (auto simp: probe_def Let_def tt_wf_def tt_shape_def cluster_ok_set_entry
        split: option.splits)
qed

lemma resize_wf:
  assumes "1 \<le> T" and "length region = cluster_count_of mbSize"
    and "cluster_count_of mbSize \<noteq> 0" and "generation8 tt AND 0x7 = 0"
    and "resize mbSize T (Some region) tt = Inr tt'"
  shows "tt_wf tt' \<and> 1000 \<le> clusterCount tt'"
proof -
  have "tt' = \<lparr>clusterCount = cluster_count_of mbSize,
      table = replicate (cluster_count_of mbSize) zero_cluster, generation8 = generation8 tt\<rparr>"
    using resize_eq[OF assms(1,2), of tt] assms(5) by simp
  then show ?thesis
    using assms(3,4) tt_shape_zero cluster_count_of_nonzero[OF assms(3)]
    by (simp add: tt_wf_def)
qed

end
